theory Spec2Isabelle
  imports Complex_Main "HOL-Library.Word" "HOL-Library.Char_ord" "HOL-Library.List_Lexorder"
begin

unbundle bit_operations_syntax

section \<open>Data model (pkg/api/types.go)\<close>

type_synonym ImageID = string

type_synonym uint64 = "64 word"

text \<open>
  \<^verbatim>\<open>ImageMetadata\<close>: the optional EXIF block is left out (no modelled function reads
  it); \<^verbatim>\<open>ModifiedAt\<close> is the Unix time in seconds.
\<close>

record ImageMetadata =
  Path :: string
  SizeBytes :: int
  Format :: string
  Width :: int
  Height :: int
  ModifiedAt :: int
  SHA256 :: string

record PerceptualHashes =
  AHash :: uint64
  PHash :: uint64
  DHash :: uint64
  WHash :: uint64

text \<open>Go's \<^verbatim>\<open>float64\<close> is idealised as \<^typ>\<open>real\<close> throughout.\<close>

record ImageQuality =
  Sharpness :: real
  Noise :: real
  Exposure :: real
  Contrast :: real
  Compression :: real
  ColorCast :: real
  FinalScore :: real

record ImageFingerprint =
  ID :: ImageID
  Metadata :: ImageMetadata
  PHashes :: PerceptualHashes
  Quality :: ImageQuality

record DuplicateGroup =
  GroupID :: string
  MainImage :: ImageID
  DuplicateIDs :: "ImageID list"
  Reason :: string
  Confidence :: real

datatype SelectionPolicy =
  PolicyHighestQuality | PolicyHighestResolution | PolicyBestExposure | PolicyOldest | PolicyNewest

text \<open>
  The error values the modelled functions can return: two of pkg/api/errors.go, the two
  errors with which a Bolt bucket refuses a key, \<^verbatim>\<open>fmt.Errorf\<close> with a plain message, the
  run-time panics of an integer division by zero and an index out of range, and \<^verbatim>\<open>fmt.Errorf("...: %w", err)\<close>.
\<close>

datatype error =
    ErrImageNotFound
  | ErrImageTooSmall
  | ErrKeyRequired
  | ErrKeyTooLarge
  | ErrorString string
  | PanicDivideByZero
  | PanicIndexOutOfRange
  | Wrapped string error

section \<open>Similarity comparator (package similarity)\<close>

record ComparatorConfig =
  MinSimilarity :: real
  UseFeatureVec :: bool
  AHashWeight :: real
  PHashWeight :: real
  DHashWeight :: real
  WHashWeight :: real

definition NewComparator :: "ComparatorConfig \<Rightarrow> ComparatorConfig" where
  "NewComparator cfg =
     (if AHashWeight cfg + PHashWeight cfg + DHashWeight cfg + WHashWeight cfg = 0
      then cfg\<lparr>AHashWeight := 0.2, PHashWeight := 0.4, DHashWeight := 0.3, WHashWeight := 0.1\<rparr>
      else cfg)"

text \<open>
  \<^verbatim>\<open>hammingDistance\<close>: the loop \<^verbatim>\<open>for xor != 0 { distance++; xor &= xor - 1 }\<close>
  on a 64-bit word.
\<close>

function hamming_loop :: "uint64 \<Rightarrow> nat \<Rightarrow> nat" where
  "hamming_loop x distance =
     (if x \<noteq> 0 then hamming_loop (x AND (x - 1)) (distance + 1) else distance)"
  by pat_completeness auto
termination
proof (relation "measure (\<lambda>(x, d). unat x)")
  show "wf (measure (\<lambda>(x :: uint64, d :: nat). unat x))"
    by simp
next
  fix x :: uint64 and distance :: nat
  assume nz: "x \<noteq> 0"
  have "x AND (x - 1) \<le> x - 1"
    by (rule word_and_le1)
  moreover have "x - 1 < x"
    using nz by (simp add: word_less_nat_alt unat_minus_one unat_gt_0)
  ultimately have "unat (x AND (x - 1)) < unat x"
    by (simp add: word_less_nat_alt word_le_nat_alt)
  then show "((x AND (x - 1), distance + 1), (x, distance)) \<in> measure (\<lambda>(x, d). unat x)"
    by simp
qed

definition hammingDistance :: "uint64 \<Rightarrow> uint64 \<Rightarrow> nat" where
  "hammingDistance a b = hamming_loop (a XOR b) 0"

definition compareAHash :: "uint64 \<Rightarrow> uint64 \<Rightarrow> real" where
  "compareAHash hash1 hash2 =
     (let distance = hammingDistance hash1 hash2;
          similarity = 1 - real distance / 64
      in max 0 similarity)"

definition comparePHash :: "uint64 \<Rightarrow> uint64 \<Rightarrow> real" where
  "comparePHash hash1 hash2 =
     (let distance = hammingDistance hash1 hash2;
          similarity = 1 - real distance / 64
      in if similarity > 0.9 then similarity
         else if similarity > 0.7 then similarity * 0.9
         else similarity * 0.8)"

definition compareDHash :: "uint64 \<Rightarrow> uint64 \<Rightarrow> real" where
  "compareDHash hash1 hash2 =
     (let distance = hammingDistance hash1 hash2
      in 1 - real distance / 64)"

definition compareWHash :: "uint64 \<Rightarrow> uint64 \<Rightarrow> real" where
  "compareWHash hash1 hash2 =
     (let distance = hammingDistance hash1 hash2;
          similarity = 1 - real distance / 64
      in if similarity > 0.6 then min 1 (similarity * 1.1) else similarity)"

text \<open>
  \<^verbatim>\<open>CompareFingerprints\<close> returns the Go pair \<^verbatim>\<open>(float64, error)\<close>; the second
  component is \<^const>\<open>None\<close> for \<^verbatim>\<open>nil\<close>.  The four guarded blocks accumulate
  \<^verbatim>\<open>totalSimilarity\<close> and \<^verbatim>\<open>totalWeight\<close> in source order.
\<close>

definition accumulate ::
  "real \<Rightarrow> uint64 \<Rightarrow> uint64 \<Rightarrow> (uint64 \<Rightarrow> uint64 \<Rightarrow> real) \<Rightarrow> real \<times> real \<Rightarrow> real \<times> real" where
  "accumulate w h1 h2 cmp acc =
     (if w > 0 \<and> h1 \<noteq> 0 \<and> h2 \<noteq> 0
      then (fst acc + cmp h1 h2 * w, snd acc + w)
      else acc)"

definition CompareFingerprints ::
  "ComparatorConfig \<Rightarrow> ImageFingerprint \<Rightarrow> ImageFingerprint \<Rightarrow> real \<times> error option" where
  "CompareFingerprints c fp1 fp2 =
     (let acc0 = (0, 0);
          acc1 = accumulate (AHashWeight c) (AHash (PHashes fp1)) (AHash (PHashes fp2)) compareAHash acc0;
          acc2 = accumulate (PHashWeight c) (PHash (PHashes fp1)) (PHash (PHashes fp2)) comparePHash acc1;
          acc3 = accumulate (DHashWeight c) (DHash (PHashes fp1)) (DHash (PHashes fp2)) compareDHash acc2;
          acc4 = accumulate (WHashWeight c) (WHash (PHashes fp1)) (WHash (PHashes fp2)) compareWHash acc3;
          totalSimilarity = fst acc4;
          totalWeight = snd acc4
      in if totalWeight = 0 then (0, None)
         else (max 0 (min 1 (totalSimilarity / totalWeight)), None))"

text \<open>The comparator the engine builds in \<^verbatim>\<open>NewEngine\<close>: no weights given, so the defaults apply.\<close>

definition engine_comparator :: ComparatorConfig where
  "engine_comparator =
     NewComparator \<lparr>MinSimilarity = 0.8, UseFeatureVec = False,
                    AHashWeight = 0, PHashWeight = 0, DHashWeight = 0, WHashWeight = 0\<rparr>"

section \<open>Engine: duplicate grouping (package engine)\<close>

text \<open>The zero value of \<^verbatim>\<open>api.ImageFingerprint\<close>, which a Go map lookup yields for a missing key.\<close>

definition zero_fingerprint :: ImageFingerprint where
  "zero_fingerprint =
     \<lparr>ID = [],
      Metadata = \<lparr>Path = [], SizeBytes = 0, Format = [], Width = 0, Height = 0,
                  ModifiedAt = 0, SHA256 = []\<rparr>,
      PHashes = \<lparr>AHash = 0, PHash = 0, DHash = 0, WHash = 0\<rparr>,
      Quality = \<lparr>Sharpness = 0, Noise = 0, Exposure = 0, Contrast = 0, Compression = 0,
                 ColorCast = 0, FinalScore = 0\<rparr>\<rparr>"

text \<open>\<^verbatim>\<open>fpMap[fp.ID] = fp\<close> for every fingerprint in order: a later entry overwrites an earlier one.\<close>

definition build_fpMap :: "ImageFingerprint list \<Rightarrow> (ImageID \<rightharpoonup> ImageFingerprint)" where
  "build_fpMap fingerprints = foldl (\<lambda>m fp. m(ID fp \<mapsto> fp)) Map.empty fingerprints"

definition calculateImageScore :: "ImageFingerprint \<Rightarrow> SelectionPolicy \<Rightarrow> real" where
  "calculateImageScore fp policy =
     (case policy of
        PolicyHighestQuality \<Rightarrow> FinalScore (Quality fp)
      | PolicyHighestResolution \<Rightarrow> real_of_int (Width (Metadata fp) * Height (Metadata fp))
      | PolicyBestExposure \<Rightarrow> 1 - \<bar>Exposure (Quality fp) - 0.5\<bar> * 2
      | PolicyOldest \<Rightarrow> - real_of_int (ModifiedAt (Metadata fp))
      | PolicyNewest \<Rightarrow> real_of_int (ModifiedAt (Metadata fp)))"

fun select_loop ::
  "(ImageID \<rightharpoonup> ImageFingerprint) \<Rightarrow> SelectionPolicy \<Rightarrow> ImageID list \<Rightarrow> ImageID \<times> real
     \<Rightarrow> ImageID \<times> real" where
  "select_loop fpMap policy [] best = best"
| "select_loop fpMap policy (imgID # rest) (bestImage, bestScore) =
     (case fpMap imgID of
        None \<Rightarrow> select_loop fpMap policy rest (bestImage, bestScore)
      | Some fp \<Rightarrow>
          (let score = calculateImageScore fp policy
           in if score > bestScore then select_loop fpMap policy rest (imgID, score)
              else select_loop fpMap policy rest (bestImage, bestScore)))"

definition selectBestImage ::
  "ImageID list \<Rightarrow> ImageFingerprint list \<Rightarrow> SelectionPolicy \<Rightarrow> ImageID" where
  "selectBestImage images fingerprints policy =
     (case images of
        [] \<Rightarrow> []
      | first # rest \<Rightarrow>
          (let fpMap = build_fpMap fingerprints;
               bestScore = calculateImageScore
                 (case fpMap first of None \<Rightarrow> zero_fingerprint | Some fp \<Rightarrow> fp) policy
           in fst (select_loop fpMap policy rest (first, bestScore))))"

definition removeElement :: "ImageID list \<Rightarrow> ImageID \<Rightarrow> ImageID list" where
  "removeElement ids element = filter (\<lambda>item. item \<noteq> element) ids"

text \<open>
  The pairs \<^verbatim>\<open>(images[i], images[j])\<close> with \<^verbatim>\<open>i < j\<close>, in the order the two nested
  index loops of \<^verbatim>\<open>calculateGroupConfidence\<close> visit them.
\<close>

fun index_pairs :: "'a list \<Rightarrow> ('a \<times> 'a) list" where
  "index_pairs [] = []"
| "index_pairs (x # xs) = map (Pair x) xs @ index_pairs xs"

definition confidence_step ::
  "ComparatorConfig \<Rightarrow> (ImageID \<rightharpoonup> ImageFingerprint) \<Rightarrow> real \<times> nat \<Rightarrow> ImageID \<times> ImageID
     \<Rightarrow> real \<times> nat" where
  "confidence_step c fpMap acc p =
     (case (fpMap (fst p), fpMap (snd p)) of
        (Some fp1, Some fp2) \<Rightarrow>
          (case CompareFingerprints c fp1 fp2 of
             (similarity, None) \<Rightarrow> (fst acc + similarity, snd acc + 1)
           | (similarity, Some err) \<Rightarrow> acc)
      | _ \<Rightarrow> acc)"

definition calculateGroupConfidence ::
  "ComparatorConfig \<Rightarrow> ImageID list \<Rightarrow> ImageFingerprint list \<Rightarrow> real" where
  "calculateGroupConfidence c images fingerprints =
     (if length images < 2 then 0
      else
        (let fpMap = build_fpMap fingerprints;
             acc = foldl (confidence_step c fpMap) (0, 0) (index_pairs images);
             totalSimilarity = fst acc;
             comparisons = snd acc
         in if comparisons = 0 then 0 else totalSimilarity / real comparisons))"

text \<open>
  The spec's words for the confidence of a near-duplicate group, "the mean of all pairwise
  similarities within the final group": the sum of the similarities of the unordered
  pairs of members over the number of such pairs.
\<close>

definition spec_mean_pairwise_similarity :: "ComparatorConfig \<Rightarrow> ImageFingerprint list \<Rightarrow> real" where
  "spec_mean_pairwise_similarity c members =
     sum_list (map (\<lambda>(a, b). fst (CompareFingerprints c a b)) (index_pairs members))
       / real (length (index_pairs members))"

text \<open>\<^verbatim>\<open>%d\<close> of a non-negative counter, for \<^verbatim>\<open>fmt.Sprintf("near_%d", groupCounter)\<close>.\<close>

fun decimal :: "nat \<Rightarrow> string" where
  "decimal n =
     (if n < 10 then [''0123456789'' ! n]
      else decimal (n div 10) @ [''0123456789'' ! (n mod 10)])"

declare decimal.simps [simp del]

text \<open>
  The inner loop of \<^verbatim>\<open>FindNearDuplicates\<close> over the fingerprints after position \<^verbatim>\<open>i\<close>;
  the state is \<^verbatim>\<open>similarImages\<close> and the \<^verbatim>\<open>processed\<close> map (the set of ids mapped to true).
\<close>

fun near_inner ::
  "ComparatorConfig \<Rightarrow> real \<Rightarrow> ImageFingerprint \<Rightarrow> ImageFingerprint list
     \<Rightarrow> ImageID list \<times> ImageID set \<Rightarrow> ImageID list \<times> ImageID set" where
  "near_inner c threshold fp1 [] st = st"
| "near_inner c threshold fp1 (fp2 # rest) (similarImages, processed) =
     (if ID fp2 \<in> processed then near_inner c threshold fp1 rest (similarImages, processed)
      else
        (case CompareFingerprints c fp1 fp2 of
           (similarity, Some err) \<Rightarrow> near_inner c threshold fp1 rest (similarImages, processed)
         | (similarity, None) \<Rightarrow>
             if similarity \<ge> threshold
             then near_inner c threshold fp1 rest
                    (similarImages @ [ID fp2], insert (ID fp2) processed)
             else near_inner c threshold fp1 rest (similarImages, processed)))"

text \<open>
  The outer loop; \<^verbatim>\<open>fingerprints\<close> is the whole slice (needed by \<^verbatim>\<open>selectBestImage\<close> and
  \<^verbatim>\<open>calculateGroupConfidence\<close>), the list argument is what is left from position \<^verbatim>\<open>i\<close> on.
\<close>

fun near_outer ::
  "ComparatorConfig \<Rightarrow> real \<Rightarrow> ImageFingerprint list \<Rightarrow> ImageFingerprint list
     \<Rightarrow> DuplicateGroup list \<times> ImageID set \<times> nat \<Rightarrow> DuplicateGroup list \<times> ImageID set \<times> nat" where
  "near_outer c threshold fingerprints [] st = st"
| "near_outer c threshold fingerprints (fp1 # rest) (groups, processed, groupCounter) =
     (if ID fp1 \<in> processed
      then near_outer c threshold fingerprints rest (groups, processed, groupCounter)
      else
        (let (similarImages, processed') =
               near_inner c threshold fp1 rest ([ID fp1], insert (ID fp1) processed)
         in if length similarImages > 1
            then
              (let mainImage = selectBestImage similarImages fingerprints PolicyHighestQuality
               in near_outer c threshold fingerprints rest
                    (groups @
                       [\<lparr>GroupID = ''near_'' @ decimal groupCounter,
                         MainImage = mainImage,
                         DuplicateIDs = removeElement similarImages mainImage,
                         Reason = ''near'',
                         Confidence = calculateGroupConfidence c similarImages fingerprints\<rparr>],
                     processed', groupCounter + 1))
            else near_outer c threshold fingerprints rest (groups, processed', groupCounter)))"

definition near_groups ::
  "ComparatorConfig \<Rightarrow> ImageFingerprint list \<Rightarrow> real \<Rightarrow> DuplicateGroup list" where
  "near_groups c fingerprints threshold =
     fst (near_outer c threshold fingerprints fingerprints ([], {}, 0))"

text \<open>
  \<^verbatim>\<open>hashGroups[sha] = append(hashGroups[sha], fp.ID)\<close>.  The Go map is kept as an association
  list in order of first insertion; Go leaves the iteration order of \<^verbatim>\<open>range hashGroups\<close>
  unspecified, and this is one of the orders it can take.
\<close>

fun group_append :: "string \<Rightarrow> ImageID \<Rightarrow> (string \<times> ImageID list) list \<Rightarrow> (string \<times> ImageID list) list" where
  "group_append k v [] = [(k, [v])]"
| "group_append k v ((k', vs) # rest) =
     (if k = k' then (k', vs @ [v]) # rest else (k', vs) # group_append k v rest)"

definition build_hashGroups :: "ImageFingerprint list \<Rightarrow> (string \<times> ImageID list) list" where
  "build_hashGroups fingerprints =
     foldl (\<lambda>m fp. group_append (SHA256 (Metadata fp)) (ID fp) m) [] fingerprints"

text \<open>The ids, in order, of the fingerprints with a given digest.\<close>

definition sha_ids :: "ImageFingerprint list \<Rightarrow> string \<Rightarrow> ImageID list" where
  "sha_ids fps k = map ID (filter (\<lambda>fp. SHA256 (Metadata fp) = k) fps)"

definition exact_step ::
  "ImageFingerprint list \<Rightarrow> DuplicateGroup list \<times> nat \<Rightarrow> string \<times> ImageID list
     \<Rightarrow> DuplicateGroup list \<times> nat" where
  "exact_step fingerprints acc entry =
     (let imageIDs = snd entry; groups = fst acc; groupCounter = snd acc
      in if length imageIDs > 1
         then
           (let mainImage = selectBestImage imageIDs fingerprints PolicyHighestQuality
            in (groups @
                  [\<lparr>GroupID = ''exact_'' @ decimal groupCounter,
                    MainImage = mainImage,
                    DuplicateIDs = removeElement imageIDs mainImage,
                    Reason = ''exact'',
                    Confidence = 1\<rparr>],
                groupCounter + 1))
         else acc)"

definition exact_groups :: "ImageFingerprint list \<Rightarrow> DuplicateGroup list" where
  "exact_groups fingerprints =
     fst (foldl (exact_step fingerprints) ([], 0) (build_hashGroups fingerprints))"

text \<open>
  The id-set of a group (its main image together with its duplicate ids) and pairwise
  disjointness of a list of sets: no set of the list meets a later one.
\<close>

definition group_ids :: "DuplicateGroup \<Rightarrow> ImageID set" where
  "group_ids g = insert (MainImage g) (set (DuplicateIDs g))"

fun pairwise_disjoint :: "'a set list \<Rightarrow> bool" where
  "pairwise_disjoint [] = True"
| "pairwise_disjoint (A # As) = ((\<forall>B \<in> set As. A \<inter> B = {}) \<and> pairwise_disjoint As)"

section \<open>Grouper (internal/similarity/grouping.go)\<close>

text \<open>
  The inner loop of \<^verbatim>\<open>GroupBySimilarity\<close>: the state is the group's \<^verbatim>\<open>DuplicateIDs\<close>, its
  \<^verbatim>\<open>Confidence\<close> and the \<^verbatim>\<open>assigned\<close> map.
\<close>

fun grouper_inner ::
  "ComparatorConfig \<Rightarrow> real \<Rightarrow> ImageFingerprint \<Rightarrow> ImageFingerprint list
     \<Rightarrow> ImageID list \<times> real \<times> ImageID set \<Rightarrow> ImageID list \<times> real \<times> ImageID set" where
  "grouper_inner c threshold fp1 [] st = st"
| "grouper_inner c threshold fp1 (fp2 # rest) (dups, conf, assigned) =
     (if ID fp2 \<in> assigned then grouper_inner c threshold fp1 rest (dups, conf, assigned)
      else
        (case CompareFingerprints c fp1 fp2 of
           (similarity, Some err) \<Rightarrow> grouper_inner c threshold fp1 rest (dups, conf, assigned)
         | (similarity, None) \<Rightarrow>
             if similarity \<ge> threshold
             then grouper_inner c threshold fp1 rest
                    (dups @ [ID fp2], similarity, insert (ID fp2) assigned)
             else grouper_inner c threshold fp1 rest (dups, conf, assigned)))"

fun grouper_outer ::
  "ComparatorConfig \<Rightarrow> real \<Rightarrow> ImageFingerprint list
     \<Rightarrow> DuplicateGroup list \<times> ImageID set \<times> nat \<Rightarrow> DuplicateGroup list \<times> ImageID set \<times> nat" where
  "grouper_outer c threshold [] st = st"
| "grouper_outer c threshold (fp1 # rest) (groups, assigned, groupID) =
     (if ID fp1 \<in> assigned then grouper_outer c threshold rest (groups, assigned, groupID)
      else
        (let (dups, conf, assigned') =
               grouper_inner c threshold fp1 rest ([], 0, insert (ID fp1) assigned);
             group = \<lparr>GroupID = ''group_'' @ decimal groupID, MainImage = ID fp1,
                      DuplicateIDs = dups, Reason = ''similarity'', Confidence = conf\<rparr>
         in if length dups > 0
            then grouper_outer c threshold rest (groups @ [group], assigned', groupID + 1)
            else grouper_outer c threshold rest (groups, assigned', groupID + 1)))"

definition GroupBySimilarity ::
  "ComparatorConfig \<Rightarrow> ImageFingerprint list \<Rightarrow> real \<Rightarrow> DuplicateGroup list" where
  "GroupBySimilarity c fingerprints threshold =
     fst (grouper_outer c threshold fingerprints ([], {}, 0))"

section \<open>Index stores (package index)\<close>

subsection \<open>Bolt buckets\<close>

text \<open>
  A Bolt bucket holds byte-string keys in sorted order, one value per key.  \<^verbatim>\<open>Put\<close>
  replaces the value of an existing key and refuses an empty key and a key longer than
  \<^verbatim>\<open>MaxKeySize = 32768\<close>; \<^verbatim>\<open>Get\<close> yields nil for a missing key; \<^verbatim>\<open>Delete\<close> of a missing
  key is not an error; \<^verbatim>\<open>ForEach\<close> visits the keys in order.
\<close>

type_synonym 'v bucket = "(string \<times> 'v) list"

definition bucket_get :: "'v bucket \<Rightarrow> string \<Rightarrow> 'v option" where
  "bucket_get b k = map_of b k"

fun bucket_insert :: "string \<Rightarrow> 'v \<Rightarrow> 'v bucket \<Rightarrow> 'v bucket" where
  "bucket_insert k v [] = [(k, v)]"
| "bucket_insert k v ((k', v') # b) =
     (if k = k' then (k, v) # b
      else if k < k' then (k, v) # (k', v') # b
      else (k', v') # bucket_insert k v b)"

definition bucket_put :: "'v bucket \<Rightarrow> string \<Rightarrow> 'v \<Rightarrow> error + 'v bucket" where
  "bucket_put b k v =
     (if k = [] then Inl ErrKeyRequired
      else if length k > 32768 then Inl ErrKeyTooLarge
      else Inr (bucket_insert k v b))"

definition bucket_delete :: "'v bucket \<Rightarrow> string \<Rightarrow> 'v bucket" where
  "bucket_delete b k = filter (\<lambda>kv. fst kv \<noteq> k) b"

subsection \<open>BoltStore (internal/index/boltdb.go)\<close>

text \<open>
  The state of the database: one field per bucket the store reads or writes.  A stored
  fingerprint is kept as the record itself (its JSON text is only ever produced by
  \<^verbatim>\<open>json.Marshal\<close> and read back by \<^verbatim>\<open>json.Unmarshal\<close>), and likewise the id lists of the
  four perceptual-hash buckets.  The SHA-256 and path buckets hold the raw bytes of an id.
\<close>

record BoltStore =
  b_fingerprints :: "ImageFingerprint bucket"
  b_sha256_index :: "string bucket"
  b_path_index :: "string bucket"
  b_ahash_index :: "ImageID list bucket"
  b_phash_index :: "ImageID list bucket"
  b_dhash_index :: "ImageID list bucket"
  b_whash_index :: "ImageID list bucket"

definition NewBoltStore :: BoltStore where
  "NewBoltStore =
     \<lparr>b_fingerprints = [], b_sha256_index = [], b_path_index = [],
      b_ahash_index = [], b_phash_index = [], b_dhash_index = [], b_whash_index = []\<rparr>"

text \<open>\<^verbatim>\<open>fmt.Sprintf("%016x", hash)\<close>: sixteen lower-case hexadecimal digits.\<close>

definition hex_digit :: "nat \<Rightarrow> char" where
  "hex_digit d = ''0123456789abcdef'' ! (d mod 16)"

definition hex16 :: "uint64 \<Rightarrow> string" where
  "hex16 h = map (\<lambda>i. hex_digit (unat (drop_bit (4 * (15 - i)) h AND 15))) [0..<16]"

definition updateHashIndex ::
  "ImageID list bucket \<Rightarrow> uint64 \<Rightarrow> ImageID \<Rightarrow> error + ImageID list bucket" where
  "updateHashIndex bucket hash imageID =
     (if hash = 0 then Inr bucket
      else
        (let key = hex16 hash;
             images = (case bucket_get bucket key of None \<Rightarrow> [] | Some ids \<Rightarrow> ids)
         in if imageID \<in> set images then Inr bucket
            else
              (case bucket_put bucket key (images @ [imageID]) of
                 Inl err \<Rightarrow> Inl (Wrapped ''failed to update hash index'' err)
               | Inr b \<Rightarrow> Inr b)))"

text \<open>What \<^verbatim>\<open>updateHashIndex\<close> leaves in the bucket when its \<^verbatim>\<open>Put\<close> is accepted.\<close>

definition hash_index_add :: "ImageID list bucket \<Rightarrow> uint64 \<Rightarrow> ImageID \<Rightarrow> ImageID list bucket" where
  "hash_index_add bucket hash imageID =
     (if hash = 0 then bucket
      else
        (let key = hex16 hash;
             images = (case bucket_get bucket key of None \<Rightarrow> [] | Some ids \<Rightarrow> ids)
         in if imageID \<in> set images then bucket
            else bucket_insert key (images @ [imageID]) bucket))"

text \<open>
  \<^verbatim>\<open>SaveFingerprint\<close> runs in one \<^verbatim>\<open>db.Update\<close> transaction: an error rolls every write
  back, so the result is either the error or the state with all writes applied.
\<close>

definition SaveFingerprint :: "BoltStore \<Rightarrow> ImageFingerprint \<Rightarrow> error + BoltStore" where
  "SaveFingerprint s fp =
     (case bucket_put (b_fingerprints s) (ID fp) fp of
        Inl err \<Rightarrow> Inl (Wrapped ''failed to store fingerprint'' err)
      | Inr fb \<Rightarrow>
     (case bucket_put (b_sha256_index s) (SHA256 (Metadata fp)) (ID fp) of
        Inl err \<Rightarrow> Inl (Wrapped ''failed to update SHA256 index'' err)
      | Inr sb \<Rightarrow>
     (case bucket_put (b_path_index s) (Path (Metadata fp)) (ID fp) of
        Inl err \<Rightarrow> Inl (Wrapped ''failed to update path index'' err)
      | Inr pb \<Rightarrow>
     (case updateHashIndex (b_ahash_index s) (AHash (PHashes fp)) (ID fp) of
        Inl err \<Rightarrow> Inl err
      | Inr ab \<Rightarrow>
     (case updateHashIndex (b_phash_index s) (PHash (PHashes fp)) (ID fp) of
        Inl err \<Rightarrow> Inl err
      | Inr phb \<Rightarrow>
     (case updateHashIndex (b_dhash_index s) (DHash (PHashes fp)) (ID fp) of
        Inl err \<Rightarrow> Inl err
      | Inr db \<Rightarrow>
     (case updateHashIndex (b_whash_index s) (WHash (PHashes fp)) (ID fp) of
        Inl err \<Rightarrow> Inl err
      | Inr wb \<Rightarrow>
          Inr \<lparr>b_fingerprints = fb, b_sha256_index = sb, b_path_index = pb,
               b_ahash_index = ab, b_phash_index = phb, b_dhash_index = db,
               b_whash_index = wb\<rparr>)))))))"

definition GetFingerprint :: "BoltStore \<Rightarrow> ImageID \<Rightarrow> error + ImageFingerprint" where
  "GetFingerprint s imageID =
     (case bucket_get (b_fingerprints s) imageID of
        None \<Rightarrow> Inl ErrImageNotFound
      | Some fp \<Rightarrow> Inr fp)"

definition GetAllFingerprints :: "BoltStore \<Rightarrow> ImageFingerprint list" where
  "GetAllFingerprints s = map snd (b_fingerprints s)"

definition removeFromHashIndex ::
  "ImageID list bucket \<Rightarrow> uint64 \<Rightarrow> ImageID \<Rightarrow> error + ImageID list bucket" where
  "removeFromHashIndex bucket hash imageID =
     (if hash = 0 then Inr bucket
      else
        (let key = hex16 hash
         in case bucket_get bucket key of
              None \<Rightarrow> Inr bucket
            | Some images \<Rightarrow>
                (let newImages = filter (\<lambda>id. id \<noteq> imageID) images
                 in if length newImages = 0 then Inr (bucket_delete bucket key)
                    else bucket_put bucket key newImages)))"

definition DeleteFingerprint :: "BoltStore \<Rightarrow> ImageID \<Rightarrow> error + BoltStore" where
  "DeleteFingerprint s imageID =
     (case GetFingerprint s imageID of
        Inl err \<Rightarrow> Inl err
      | Inr fp \<Rightarrow>
     (case removeFromHashIndex (b_ahash_index s) (AHash (PHashes fp)) imageID of
        Inl err \<Rightarrow> Inl err
      | Inr ab \<Rightarrow>
     (case removeFromHashIndex (b_phash_index s) (PHash (PHashes fp)) imageID of
        Inl err \<Rightarrow> Inl err
      | Inr phb \<Rightarrow>
     (case removeFromHashIndex (b_dhash_index s) (DHash (PHashes fp)) imageID of
        Inl err \<Rightarrow> Inl err
      | Inr db \<Rightarrow>
     (case removeFromHashIndex (b_whash_index s) (WHash (PHashes fp)) imageID of
        Inl err \<Rightarrow> Inl err
      | Inr wb \<Rightarrow>
          Inr \<lparr>b_fingerprints = bucket_delete (b_fingerprints s) imageID,
               b_sha256_index = bucket_delete (b_sha256_index s) (SHA256 (Metadata fp)),
               b_path_index = bucket_delete (b_path_index s) (Path (Metadata fp)),
               b_ahash_index = ab, b_phash_index = phb, b_dhash_index = db,
               b_whash_index = wb\<rparr>)))))"

text \<open>
  \<^verbatim>\<open>json.Unmarshal(data, &imageIDs)\<close> into a slice of ids succeeds only on JSON text whose
  first non-blank character opens an array or the literal \<^verbatim>\<open>null\<close>; any other text is a
  syntax or type error.  What the decoder of encoding/json makes of such text is the
  parameter \<open>dec\<close>.
\<close>

definition is_json_space :: "char \<Rightarrow> bool" where
  "is_json_space ch = (ch = CHR '' '' \<or> ch = CHR 0x09 \<or> ch = CHR 0x0A \<or> ch = CHR 0x0D)"

definition unmarshal_ids :: "(string \<Rightarrow> ImageID list option) \<Rightarrow> string \<Rightarrow> ImageID list option" where
  "unmarshal_ids dec data =
     (case dropWhile is_json_space data of
        [] \<Rightarrow> None
      | ch # rest \<Rightarrow> if ch = CHR ''['' \<or> ch = CHR ''n'' then dec data else None)"

definition FindBySHA256 ::
  "(string \<Rightarrow> ImageID list option) \<Rightarrow> BoltStore \<Rightarrow> string \<Rightarrow> ImageFingerprint list" where
  "FindBySHA256 dec s hash =
     (case bucket_get (b_sha256_index s) hash of
        None \<Rightarrow> []
      | Some imageIDData \<Rightarrow>
          (let imageIDs = (case unmarshal_ids dec imageIDData of
                             None \<Rightarrow> [imageIDData]
                           | Some ids \<Rightarrow> ids)
           in concat (map (\<lambda>imageID. case bucket_get (b_fingerprints s) imageID of
                                       None \<Rightarrow> []
                                     | Some fp \<Rightarrow> [fp]) imageIDs)))"

text \<open>The index states the store can be in: a fresh database and what saves and deletes make of it.\<close>

inductive reachable :: "BoltStore \<Rightarrow> bool" where
  init: "reachable NewBoltStore"
| save: "reachable s \<Longrightarrow> SaveFingerprint s fp = Inr s' \<Longrightarrow> reachable s'"
| delete: "reachable s \<Longrightarrow> DeleteFingerprint s imageID = Inr s' \<Longrightarrow> reachable s'"

text \<open>
  The index writes of \<^verbatim>\<open>ScanFolder\<close>: each fingerprint is saved in turn, and a save that
  fails is logged and skipped.
\<close>

definition save_each :: "BoltStore \<Rightarrow> ImageFingerprint list \<Rightarrow> BoltStore" where
  "save_each s fps =
     foldl (\<lambda>s fp. case SaveFingerprint s fp of Inl err \<Rightarrow> s | Inr s' \<Rightarrow> s') s fps"

text \<open>
  The invariant of the primary bucket: keys strictly increasing, and every record stored
  under its own id.
\<close>

definition primary_inv :: "ImageFingerprint bucket \<Rightarrow> bool" where
  "primary_inv b = (sorted_wrt (<) (map fst b) \<and> (\<forall>e \<in> set b. ID (snd e) = fst e))"

subsection \<open>MemoryStore\<close>

record MemoryStore =
  m_fingerprints :: "ImageID \<rightharpoonup> ImageFingerprint"
  m_sha256Index :: "string \<rightharpoonup> ImageID"
  m_pathIndex :: "string \<rightharpoonup> ImageID"

definition NewMemoryStore :: MemoryStore where
  "NewMemoryStore = \<lparr>m_fingerprints = Map.empty, m_sha256Index = Map.empty, m_pathIndex = Map.empty\<rparr>"

definition MemoryStore_SaveFingerprint :: "MemoryStore \<Rightarrow> ImageFingerprint \<Rightarrow> MemoryStore" where
  "MemoryStore_SaveFingerprint m fp =
     \<lparr>m_fingerprints = (m_fingerprints m)(ID fp \<mapsto> fp),
      m_sha256Index = (m_sha256Index m)(SHA256 (Metadata fp) \<mapsto> ID fp),
      m_pathIndex = (m_pathIndex m)(Path (Metadata fp) \<mapsto> ID fp)\<rparr>"

definition MemoryStore_FindBySHA256 :: "MemoryStore \<Rightarrow> string \<Rightarrow> ImageFingerprint list" where
  "MemoryStore_FindBySHA256 m hash =
     (case m_sha256Index m hash of
        None \<Rightarrow> []
      | Some imageID \<Rightarrow>
          (case m_fingerprints m imageID of
             None \<Rightarrow> []
           | Some fp \<Rightarrow> [fp]))"

subsection \<open>The engine's queries over its BoltStore\<close>

definition FindExactDuplicates :: "BoltStore \<Rightarrow> DuplicateGroup list" where
  "FindExactDuplicates s = exact_groups (GetAllFingerprints s)"

definition FindNearDuplicates :: "BoltStore \<Rightarrow> real \<Rightarrow> DuplicateGroup list" where
  "FindNearDuplicates s threshold = near_groups engine_comparator (GetAllFingerprints s) threshold"

section \<open>Images\<close>

text \<open>
  An \<^verbatim>\<open>image.Image\<close> as the code reads it: the size of its bounds and, for the pixel at
  offset \<open>(x, y)\<close> from the upper-left corner, the red, green and blue components that
  \<^verbatim>\<open>At(x, y).RGBA()\<close> returns, each a 16-bit value.
\<close>

record Image =
  Dx :: nat
  Dy :: nat
  RGBA_At :: "nat \<Rightarrow> nat \<Rightarrow> nat \<times> nat \<times> nat"

text \<open>The coordinates the loop \<^verbatim>\<open>for y { for x { ... } }\<close> visits, in that order.\<close>

definition all_pixels :: "nat \<Rightarrow> nat \<Rightarrow> (nat \<times> nat) list" where
  "all_pixels w h = concat (map (\<lambda>y. map (\<lambda>x. (x, y)) [0..<w]) [0..<h])"

section \<open>Perceptual hashes of the engine\<close>

text \<open>
  The hash functions of the engine start with calls into the imaging library
  (\<^verbatim>\<open>imaging.Resize\<close>, which returns a copy when the image already has the target size, and
  \<^verbatim>\<open>imaging.Grayscale\<close>).  The models below take the image \<^verbatim>\<open>gray\<close> these calls produce.
\<close>

fun ahash_bits :: "uint64 \<Rightarrow> nat \<Rightarrow> uint64 list \<Rightarrow> uint64 \<Rightarrow> uint64" where
  "ahash_bits average i [] hash = hash"
| "ahash_bits average i (pixel # rest) hash =
     ahash_bits average (i + 1) rest (if pixel > average then hash OR push_bit i 1 else hash)"

definition computeAHash :: "Image \<Rightarrow> uint64 \<times> error option" where
  "computeAHash gray =
     (let pixels = map (\<lambda>(x, y). case RGBA_At gray x y of
                          (r, g, b) \<Rightarrow> (of_nat r + of_nat g + of_nat b) div (3 :: uint64))
                       (all_pixels (Dx gray) (Dy gray));
          total = foldl (+) 0 pixels
      in if length pixels = 0 then (0, Some PanicDivideByZero)
         else (ahash_bits (total div of_nat (length pixels)) 0 pixels 0, None))"

fun phash_bits :: "real \<Rightarrow> nat \<Rightarrow> real list \<Rightarrow> uint64 \<Rightarrow> uint64" where
  "phash_bits average i [] hash = hash"
| "phash_bits average i (v # rest) hash =
     phash_bits average (i + 1) rest
       (if v > average then hash OR push_bit (i mod 64) 1 else hash)"

definition computePHash :: "Image \<Rightarrow> uint64 \<times> error option" where
  "computePHash gray =
     (if Dx gray \<noteq> 32 \<or> Dy gray \<noteq> 32
      then (0, Some (ErrorString ''unexpected image dimensions for pHash''))
      else
        (let vals = map (\<lambda>(x, y). case RGBA_At gray x y of
                           (r, g, b) \<Rightarrow> (real r + real g + real b) / 3 / 65535)
                        (all_pixels 32 32);
             average = sum_list vals / real (length vals)
         in (phash_bits average 0 vals 0, None)))"

definition computeWHash :: "Image \<Rightarrow> uint64 \<times> error option" where
  "computeWHash gray = computeAHash gray"

section \<open>Perception hash of package perceptual (internal/hash/perceptual/phash.go)\<close>

record PHash_calc =
  Size :: nat
  SmallSize :: nat

text \<open>
  \<^verbatim>\<open>applyDCT\<close>: the matrix entry is the red component over 65535; \<open>applyDCT img u v\<close> is
  \<^verbatim>\<open>dct[u][v]\<close>, an entry of a square matrix as wide as the image, so that reading an entry
  beyond that width panics.
\<close>

definition applyDCT :: "Image \<Rightarrow> nat \<Rightarrow> nat \<Rightarrow> real" where
  "applyDCT img u v =
     (let size = Dx img;
          matrix = (\<lambda>i j. real (fst (RGBA_At img j i)) / 65535)
      in sum_list (map (\<lambda>(j, i).
             matrix i j
               * cos (real ((2 * i + 1) * u) * pi / (2 * real size))
               * cos (real ((2 * j + 1) * v) * pi / (2 * real size)))
           (all_pixels size size)))"

text \<open>
  The two nested loops that pack the bits, with their \<^verbatim>\<open>break\<close>s: the state is
  \<^verbatim>\<open>hash\<close> and \<^verbatim>\<open>bitPos\<close>; a row stops once \<^verbatim>\<open>bitPos\<close> has reached 64, and so do the rows.
\<close>

fun pack_row :: "(nat \<Rightarrow> nat \<Rightarrow> real) \<Rightarrow> real \<Rightarrow> nat \<Rightarrow> nat list \<Rightarrow> uint64 \<times> nat \<Rightarrow> uint64 \<times> nat" where
  "pack_row dct mean y [] st = st"
| "pack_row dct mean y (x # xs) (hash, bitPos) =
     (if x = 0 \<and> y = 0 then pack_row dct mean y xs (hash, bitPos)
      else
        (let hash' = (if dct y x > mean then hash OR push_bit bitPos 1 else hash);
             bitPos' = bitPos + 1
         in if bitPos' \<ge> 64 then (hash', bitPos')
            else pack_row dct mean y xs (hash', bitPos')))"

fun pack_rows :: "(nat \<Rightarrow> nat \<Rightarrow> real) \<Rightarrow> real \<Rightarrow> nat \<Rightarrow> nat list \<Rightarrow> uint64 \<times> nat \<Rightarrow> uint64 \<times> nat" where
  "pack_rows dct mean n [] st = st"
| "pack_rows dct mean n (y # ys) st =
     (let st' = pack_row dct mean y [0..<n] st
      in if snd st' \<ge> 64 then st' else pack_rows dct mean n ys st')"

definition PHash_Compute :: "PHash_calc \<Rightarrow> Image \<Rightarrow> uint64 \<times> error option" where
  "PHash_Compute p resized =
     (let dctMatrix = applyDCT resized;
          coeffs = filter (\<lambda>(x, y). \<not> (x = 0 \<and> y = 0)) (all_pixels (SmallSize p) (SmallSize p));
          total = sum_list (map (\<lambda>(x, y). dctMatrix y x) coeffs);
          count = length coeffs
      in if SmallSize p \<ge> 2 \<and> SmallSize p > Dx resized then (0, Some PanicIndexOutOfRange)
         else if count = 0 then (0, None)
         else
           (let mean = total / real count
            in (fst (pack_rows dctMatrix mean (SmallSize p) [0..<SmallSize p] (0, 0)), None)))"

section \<open>Quality analyzer (internal/quality/analyzer.go)\<close>

text \<open>
  \<^verbatim>\<open>toGray\<close> stores every pixel through \<^verbatim>\<open>color.GrayModel\<close>, whose conversion of the
  16-bit components is \<^verbatim>\<open>(19595*r + 38470*g + 7471*b + 1<<15) >> 24\<close>, cut to 8 bits.
\<close>

record GrayImage =
  g_Dx :: nat
  g_Dy :: nat
  GrayAt :: "nat \<Rightarrow> nat \<Rightarrow> nat"

definition gray_Y :: "nat \<times> nat \<times> nat \<Rightarrow> nat" where
  "gray_Y c = (case c of (r, g, b) \<Rightarrow>
     ((19595 * r + 38470 * g + 7471 * b + 2 ^ 15) div 2 ^ 24) mod 256)"

definition toGray :: "Image \<Rightarrow> GrayImage" where
  "toGray img = \<lparr>g_Dx = Dx img, g_Dy = Dy img, GrayAt = (\<lambda>x y. gray_Y (RGBA_At img x y))\<rparr>"

text \<open>The interior pixels, from 1 to the last but one in each direction.\<close>

definition interior :: "nat \<Rightarrow> nat \<Rightarrow> (nat \<times> nat) list" where
  "interior w h = concat (map (\<lambda>y. map (\<lambda>x. (x, y)) [1..<w - 1]) [1..<h - 1])"

definition laplacian :: "GrayImage \<Rightarrow> nat \<times> nat \<Rightarrow> real" where
  "laplacian gray p = (case p of (x, y) \<Rightarrow>
     (let center = real (GrayAt gray x y);
          top = real (GrayAt gray x (y - 1));
          bottom = real (GrayAt gray x (y + 1));
          left = real (GrayAt gray (x - 1) y);
          right = real (GrayAt gray (x + 1) y)
      in \<bar>4 * center - (top + bottom + left + right)\<bar>))"

definition analyzeSharpness :: "GrayImage \<Rightarrow> real \<times> error option" where
  "analyzeSharpness gray =
     (let width = g_Dx gray; height = g_Dy gray
      in if width < 3 \<or> height < 3 then (0, Some ErrImageTooSmall)
         else
           (let ps = interior width height;
                total = sum_list (map (laplacian gray) ps);
                count = length ps
            in if count = 0 then (0, None)
               else (min (total / real count / 100) 1, None)))"

text \<open>
  One step of the noise loop: the contribution \<^verbatim>\<open>math.Sqrt(variance)\<close> of a pixel in a
  smooth region, or nothing.
\<close>

definition noise_at :: "GrayImage \<Rightarrow> nat \<times> nat \<Rightarrow> real option" where
  "noise_at gray p = (case p of (x, y) \<Rightarrow>
     (let center = real (GrayAt gray x y);
          neighbors =
            [real (GrayAt gray (x - 1) (y - 1)), real (GrayAt gray x (y - 1)),
             real (GrayAt gray (x + 1) (y - 1)), real (GrayAt gray (x - 1) y),
             real (GrayAt gray (x + 1) y), real (GrayAt gray (x - 1) (y + 1)),
             real (GrayAt gray x (y + 1)), real (GrayAt gray (x + 1) (y + 1))];
          mean = sum_list neighbors / real (length neighbors);
          variance = sum_list (map (\<lambda>n. (n - mean) * (n - mean)) neighbors)
                       / real (length neighbors);
          gradient = \<bar>center - mean\<bar>
      in if gradient < 10 then Some (sqrt variance) else None))"

definition analyzeNoise :: "GrayImage \<Rightarrow> real \<times> error option" where
  "analyzeNoise gray =
     (let width = g_Dx gray; height = g_Dy gray
      in if width < 3 \<or> height < 3 then (0, Some ErrImageTooSmall)
         else
           (let smooth = List.map_filter (noise_at gray) (interior width height);
                noiseSum = sum_list smooth;
                count = length smooth
            in if count = 0 then (0.5, None)
               else (min (noiseSum / real count / 50) 1, None)))"

definition analyzeExposure :: "GrayImage \<Rightarrow> real \<times> error option" where
  "analyzeExposure gray =
     (let totalPixels = g_Dx gray * g_Dy gray
      in if totalPixels = 0 then (0.5, None)
         else
           (let lums = map (\<lambda>(x, y). real (GrayAt gray x y) / 255)
                         (all_pixels (g_Dx gray) (g_Dy gray));
                total = sum_list lums;
                darkPixels = length (filter (\<lambda>l. l < 0.1) lums);
                brightPixels = length (filter (\<lambda>l. \<not> l < 0.1 \<and> l > 0.9) lums);
                avgLuminance = total / real totalPixels;
                darkRatio = real darkPixels / real totalPixels;
                brightRatio = real brightPixels / real totalPixels;
                exposure1 = (if darkRatio > 0.3 then avgLuminance - (darkRatio - 0.3) * 0.5
                             else avgLuminance);
                exposure2 = (if brightRatio > 0.3 then exposure1 + (brightRatio - 0.3) * 0.5
                             else exposure1)
            in (max 0 (min 1 exposure2), None)))"

definition analyzeContrast :: "GrayImage \<Rightarrow> real \<times> error option" where
  "analyzeContrast gray =
     (let totalPixels = g_Dx gray * g_Dy gray
      in if totalPixels = 0 then (0.5, None)
         else
           (let vals = map (\<lambda>(x, y). real (GrayAt gray x y) / 255)
                         (all_pixels (g_Dx gray) (g_Dy gray));
                total = sum_list vals;
                sumSquares = sum_list (map (\<lambda>v. v * v) vals);
                mean = total / real totalPixels;
                variance = sumSquares / real totalPixels - mean * mean;
                stdDev = sqrt (max 0 variance)
            in (min (stdDev / 0.4) 1, None)))"

definition analyzeCompression :: "Image \<Rightarrow> real \<times> error option" where
  "analyzeCompression img =
     (if Dx img < 100 \<or> Dy img < 100 then (0.1, None) else (0.3, None))"

text \<open>The sample coordinates \<^verbatim>\<open>0, 4, 8, ...\<close> below \<open>n\<close>.\<close>

definition every_4th :: "nat \<Rightarrow> nat list" where
  "every_4th n = map (\<lambda>i. 4 * i) [0..<(n + 3) div 4]"

definition analyzeColorCast :: "Image \<Rightarrow> real \<times> error option" where
  "analyzeColorCast img =
     (let totalPixels = Dx img * Dy img
      in if totalPixels = 0 then (0, None)
         else
           (let samples = concat (map (\<lambda>y. map (\<lambda>x. RGBA_At img x y) (every_4th (Dx img)))
                                     (every_4th (Dy img)));
                rSum = sum_list (map (\<lambda>(r, g, b). real r / 65535) samples);
                gSum = sum_list (map (\<lambda>(r, g, b). real g / 65535) samples);
                bSum = sum_list (map (\<lambda>(r, g, b). real b / 65535) samples);
                sampledPixels = real ((Dx img div 4 + 1) * (Dy img div 4 + 1));
                rAvg = rSum / sampledPixels;
                gAvg = gSum / sampledPixels;
                bAvg = bSum / sampledPixels;
                maxChannel = max (max rAvg gAvg) bAvg
            in if maxChannel = 0 then (0, None)
               else
                 (let rNorm = rAvg / maxChannel;
                      gNorm = gAvg / maxChannel;
                      bNorm = bAvg / maxChannel
                  in (sqrt ((1 - rNorm) ^ 2 + (1 - gNorm) ^ 2 + (1 - bNorm) ^ 2) / sqrt 3,
                      None))))"

definition calculateFinalScore :: "ImageQuality \<Rightarrow> real" where
  "calculateFinalScore quality =
     (let exposureScore = 1 - \<bar>Exposure quality - 0.5\<bar> * 2;
          score = Sharpness quality * 0.3
                + (1 - Noise quality) * 0.25
                + exposureScore * 0.2
                + Contrast quality * 0.15
                + (1 - Compression quality) * 0.05
                + (1 - ColorCast quality) * 0.05;
          finalScore = score * 100
      in max 0 (min 100 finalScore))"

text \<open>
  \<^verbatim>\<open>Analyze\<close> logs the error of a sub-analysis and keeps the value returned with it; it
  returns a nil error itself.
\<close>

definition Analyze :: "Image \<Rightarrow> ImageQuality" where
  "Analyze img =
     (let gray = toGray img;
          quality = \<lparr>Sharpness = fst (analyzeSharpness gray),
                      Noise = fst (analyzeNoise gray),
                      Exposure = fst (analyzeExposure gray),
                      Contrast = fst (analyzeContrast gray),
                      Compression = fst (analyzeCompression img),
                      ColorCast = fst (analyzeColorCast img),
                      FinalScore = 0\<rparr>
      in quality\<lparr>FinalScore := calculateFinalScore quality\<rparr>)"

section \<open>Score calculator (internal/quality/score_calculator.go)\<close>

text \<open>The calculator's only field is its weight map.\<close>

record ScoreCalculator =
  weights :: "string \<rightharpoonup> real"



definition GetWeights :: "ScoreCalculator \<Rightarrow> (string \<rightharpoonup> real)" where
  "GetWeights sc = weights sc"



section \<open>Concrete inputs\<close>

text \<open>An image of one colour, gray when the three components are equal.\<close>

definition const_image :: "nat \<Rightarrow> nat \<Rightarrow> nat \<Rightarrow> Image" where
  "const_image w h c = \<lparr>Dx = w, Dy = h, RGBA_At = (\<lambda>x y. (c, c, c))\<rparr>"

text \<open>A black square image of side \<open>n\<close> with one white pixel at \<open>(x0, y0)\<close>.\<close>

definition one_white_pixel :: "nat \<Rightarrow> nat \<Rightarrow> nat \<Rightarrow> Image" where
  "one_white_pixel n x0 y0 =
     \<lparr>Dx = n, Dy = n,
      RGBA_At = (\<lambda>x y. if x = x0 \<and> y = y0 then (65535, 65535, 65535) else (0, 0, 0))\<rparr>"

text \<open>The gray image \<^verbatim>\<open>toGray\<close> makes of a constant image: one level everywhere.\<close>

definition const_gray :: "nat \<Rightarrow> nat \<Rightarrow> nat \<Rightarrow> GrayImage" where
  "const_gray w h v = \<lparr>g_Dx = w, g_Dy = h, GrayAt = (\<lambda>x y. v)\<rparr>"

text \<open>
  Two SHA-256 digests (of the empty input and of the four bytes "test"), a fingerprint with
  an id and an a_hash only, and one with an id, a path, a digest and an a_hash.
\<close>

text \<open>A comparator that is given a weight for the average hash alone.\<close>

definition ahash_weight_only :: ComparatorConfig where
  "ahash_weight_only =
     NewComparator \<lparr>MinSimilarity = 0.8, UseFeatureVec = False,
                    AHashWeight = 1, PHashWeight = 0, DHashWeight = 0, WHashWeight = 0\<rparr>"

abbreviation digest_1 :: string where
  "digest_1 \<equiv> ''e3b0c44298fc1c149afbf4c8996fb92427ae41e4649b934ca495991b7852b855''"

abbreviation digest_2 :: string where
  "digest_2 \<equiv> ''9f86d081884c7d659a2feaa0c55ad015a3bf4f1b2b0b822cd15d6c15b0f00a08''"

abbreviation ahash_only :: "ImageID \<Rightarrow> uint64 \<Rightarrow> ImageFingerprint" where
  "ahash_only i a \<equiv>
     zero_fingerprint\<lparr>ID := i, PHashes := \<lparr>AHash = a, PHash = 0, DHash = 0, WHash = 0\<rparr>\<rparr>"

abbreviation file_fp :: "ImageID \<Rightarrow> string \<Rightarrow> string \<Rightarrow> uint64 \<Rightarrow> ImageFingerprint" where
  "file_fp i p h a \<equiv>
     \<lparr>ID = i,
      Metadata = \<lparr>Path = p, SizeBytes = 0, Format = [], Width = 0, Height = 0,
                  ModifiedAt = 0, SHA256 = h\<rparr>,
      PHashes = \<lparr>AHash = a, PHash = 0, DHash = 0, WHash = 0\<rparr>,
      Quality = \<lparr>Sharpness = 0, Noise = 0, Exposure = 0, Contrast = 0, Compression = 0,
                 ColorCast = 0, FinalScore = 0\<rparr>\<rparr>"

section \<open>Comparator: identity and totality\<close>

lemma hammingDistance_self: "hammingDistance a a = 0"
  by (simp add: hammingDistance_def)

lemma compareAHash_self: "compareAHash h h = 1"
  by (simp add: compareAHash_def hammingDistance_self)

lemma comparePHash_self: "comparePHash h h = 1"
  by (simp add: comparePHash_def hammingDistance_self)

lemma compareDHash_self: "compareDHash h h = 1"
  by (simp add: compareDHash_def hammingDistance_self)

lemma compareWHash_self: "compareWHash h h = 1"
  by (simp add: compareWHash_def hammingDistance_self)

lemma accumulate_self:
  assumes "fst acc = snd acc" and "cmp h h = 1"
  shows "fst (accumulate w h h cmp acc) = snd (accumulate w h h cmp acc)"
  using assms by (simp add: accumulate_def)

lemma accumulate_weight_mono:
  assumes "0 \<le> snd acc"
  shows "snd acc \<le> snd (accumulate w h1 h2 cmp acc)"
  using assms by (simp add: accumulate_def)

lemma accumulate_weight_pos:
  assumes "0 \<le> snd acc" and "0 < w" and "h1 \<noteq> 0" and "h2 \<noteq> 0"
  shows "0 < snd (accumulate w h1 h2 cmp acc)"
  using assms by (simp add: accumulate_def)

text \<open>
  A fingerprint compared with itself scores 1 as soon as one hash kind takes part, that
  is, has a positive weight and a non-zero value.
\<close>

lemma CompareFingerprints_self_participating:
  assumes "(0 < AHashWeight c \<and> AHash (PHashes fp) \<noteq> 0)
         \<or> (0 < PHashWeight c \<and> PHash (PHashes fp) \<noteq> 0)
         \<or> (0 < DHashWeight c \<and> DHash (PHashes fp) \<noteq> 0)
         \<or> (0 < WHashWeight c \<and> WHash (PHashes fp) \<noteq> 0)"
  shows "CompareFingerprints c fp fp = (1, None)"
proof -
  define acc1 where
    "acc1 = accumulate (AHashWeight c) (AHash (PHashes fp)) (AHash (PHashes fp)) compareAHash (0, 0)"
  define acc2 where
    "acc2 = accumulate (PHashWeight c) (PHash (PHashes fp)) (PHash (PHashes fp)) comparePHash acc1"
  define acc3 where
    "acc3 = accumulate (DHashWeight c) (DHash (PHashes fp)) (DHash (PHashes fp)) compareDHash acc2"
  define acc4 where
    "acc4 = accumulate (WHashWeight c) (WHash (PHashes fp)) (WHash (PHashes fp)) compareWHash acc3"
  have e1: "fst acc1 = snd acc1"
    unfolding acc1_def by (rule accumulate_self) (simp_all add: compareAHash_self)
  have e2: "fst acc2 = snd acc2"
    unfolding acc2_def by (rule accumulate_self) (simp_all add: e1 comparePHash_self)
  have e3: "fst acc3 = snd acc3"
    unfolding acc3_def by (rule accumulate_self) (simp_all add: e2 compareDHash_self)
  have e4: "fst acc4 = snd acc4"
    unfolding acc4_def by (rule accumulate_self) (simp_all add: e3 compareWHash_self)
  have p1: "0 \<le> snd acc1"
    unfolding acc1_def using accumulate_weight_mono [of "(0, 0)"] by simp
  have p2: "snd acc1 \<le> snd acc2"
    unfolding acc2_def by (rule accumulate_weight_mono [OF p1])
  have p3: "snd acc2 \<le> snd acc3"
    unfolding acc3_def by (rule accumulate_weight_mono) (use p1 p2 in simp)
  have p4: "snd acc3 \<le> snd acc4"
    unfolding acc4_def by (rule accumulate_weight_mono) (use p1 p2 p3 in simp)
  have pos: "0 < snd acc4"
    using assms
  proof (elim disjE conjE)
    assume "0 < AHashWeight c" "AHash (PHashes fp) \<noteq> 0"
    then have "0 < snd acc1"
      unfolding acc1_def by (intro accumulate_weight_pos) simp_all
    with p2 p3 p4 show ?thesis by simp
  next
    assume "0 < PHashWeight c" "PHash (PHashes fp) \<noteq> 0"
    then have "0 < snd acc2"
      unfolding acc2_def by (intro accumulate_weight_pos) (simp_all add: p1)
    with p3 p4 show ?thesis by simp
  next
    assume "0 < DHashWeight c" "DHash (PHashes fp) \<noteq> 0"
    then have "0 < snd acc3"
      unfolding acc3_def by (intro accumulate_weight_pos) (use p1 p2 in simp_all)
    with p4 show ?thesis by simp
  next
    assume "0 < WHashWeight c" "WHash (PHashes fp) \<noteq> 0"
    then show "0 < snd acc4"
      unfolding acc4_def by (intro accumulate_weight_pos) (use p1 p2 p3 in simp_all)
  qed
  have "CompareFingerprints c fp fp =
          (if snd acc4 = 0 then (0, None) else (max 0 (min 1 (fst acc4 / snd acc4)), None))"
    by (simp add: CompareFingerprints_def Let_def acc1_def acc2_def acc3_def acc4_def)
  with pos e4 show ?thesis by simp
qed

lemma engine_comparator_weights:
  "AHashWeight engine_comparator = 0.2" "PHashWeight engine_comparator = 0.4"
  "DHashWeight engine_comparator = 0.3" "WHashWeight engine_comparator = 0.1"
  by (simp_all add: engine_comparator_def NewComparator_def)

lemma ahash_weight_only_weights:
  "AHashWeight ahash_weight_only = 1" "PHashWeight ahash_weight_only = 0"
  "DHashWeight ahash_weight_only = 0" "WHashWeight ahash_weight_only = 0"
  by (simp_all add: ahash_weight_only_def NewComparator_def)

text \<open>
  Claim C7 as stated fails.  \<^verbatim>\<open>NewComparator\<close> keeps any weights that do not sum to zero,
  and a hash kind takes part in the comparison only if its weight is positive.  With a
  weight for the average hash alone, a fingerprint whose only non-zero hash is its p_hash
  has no kind taking part, and its similarity with itself is 0, not 1.
\<close>

theorem similarity_identity_counterexample:
  "PHash (PHashes (zero_fingerprint\<lparr>PHashes := \<lparr>AHash = 0, PHash = 9, DHash = 0, WHash = 0\<rparr>\<rparr>)) \<noteq> 0
   \<and> CompareFingerprints ahash_weight_only
        (zero_fingerprint\<lparr>PHashes := \<lparr>AHash = 0, PHash = 9, DHash = 0, WHash = 0\<rparr>\<rparr>)
        (zero_fingerprint\<lparr>PHashes := \<lparr>AHash = 0, PHash = 9, DHash = 0, WHash = 0\<rparr>\<rparr>) = (0, None)
   \<and> fst (CompareFingerprints ahash_weight_only
        (zero_fingerprint\<lparr>PHashes := \<lparr>AHash = 0, PHash = 9, DHash = 0, WHash = 0\<rparr>\<rparr>)
        (zero_fingerprint\<lparr>PHashes := \<lparr>AHash = 0, PHash = 9, DHash = 0, WHash = 0\<rparr>\<rparr>)) \<noteq> 1"
  by (simp add: CompareFingerprints_def accumulate_def ahash_weight_only_weights)

text \<open>
  Claim C7, amended.  For every comparator and every fingerprint in which at least one
  perceptual hash kind is non-zero and has a positive weight in the comparator, the
  weighted similarity of the fingerprint with itself is exactly 1, with a nil error, also
  through the bias branches of p_hash (1 > 0.9, first branch) and w_hash (min 1 (1 * 1.1)).
  With the engine's comparator, whose default weights 0.2, 0.4, 0.3, 0.1 are all positive,
  this holds for every fingerprint with at least one non-zero hash kind.
\<close>

theorem similarity_identity:
  "((0 < AHashWeight c \<and> AHash (PHashes fp) \<noteq> 0)
      \<or> (0 < PHashWeight c \<and> PHash (PHashes fp) \<noteq> 0)
      \<or> (0 < DHashWeight c \<and> DHash (PHashes fp) \<noteq> 0)
      \<or> (0 < WHashWeight c \<and> WHash (PHashes fp) \<noteq> 0)
    \<longrightarrow> CompareFingerprints c fp fp = (1, None))
   \<and> (AHash (PHashes fp) \<noteq> 0 \<or> PHash (PHashes fp) \<noteq> 0
      \<or> DHash (PHashes fp) \<noteq> 0 \<or> WHash (PHashes fp) \<noteq> 0
    \<longrightarrow> CompareFingerprints engine_comparator fp fp = (1, None))"
proof (intro conjI impI)
  assume "(0 < AHashWeight c \<and> AHash (PHashes fp) \<noteq> 0)
      \<or> (0 < PHashWeight c \<and> PHash (PHashes fp) \<noteq> 0)
      \<or> (0 < DHashWeight c \<and> DHash (PHashes fp) \<noteq> 0)
      \<or> (0 < WHashWeight c \<and> WHash (PHashes fp) \<noteq> 0)"
  then show "CompareFingerprints c fp fp = (1, None)"
    by (rule CompareFingerprints_self_participating)
next
  assume "AHash (PHashes fp) \<noteq> 0 \<or> PHash (PHashes fp) \<noteq> 0
      \<or> DHash (PHashes fp) \<noteq> 0 \<or> WHash (PHashes fp) \<noteq> 0"
  then show "CompareFingerprints engine_comparator fp fp = (1, None)"
    by (intro CompareFingerprints_self_participating)
       (simp add: engine_comparator_weights)
qed

theorem similarity_identity_witness:
  "0 < AHashWeight ahash_weight_only
   \<and> AHash (PHashes (zero_fingerprint\<lparr>PHashes := \<lparr>AHash = 7, PHash = 9, DHash = 0, WHash = 5\<rparr>\<rparr>)) \<noteq> 0
   \<and> CompareFingerprints ahash_weight_only
        (zero_fingerprint\<lparr>PHashes := \<lparr>AHash = 7, PHash = 9, DHash = 0, WHash = 5\<rparr>\<rparr>)
        (zero_fingerprint\<lparr>PHashes := \<lparr>AHash = 7, PHash = 9, DHash = 0, WHash = 5\<rparr>\<rparr>) = (1, None)
   \<and> CompareFingerprints engine_comparator
        (zero_fingerprint\<lparr>PHashes := \<lparr>AHash = 7, PHash = 9, DHash = 0, WHash = 5\<rparr>\<rparr>)
        (zero_fingerprint\<lparr>PHashes := \<lparr>AHash = 7, PHash = 9, DHash = 0, WHash = 5\<rparr>\<rparr>) = (1, None)"
  using similarity_identity [of ahash_weight_only
      "zero_fingerprint\<lparr>PHashes := \<lparr>AHash = 7, PHash = 9, DHash = 0, WHash = 5\<rparr>\<rparr>"]
  by (simp add: ahash_weight_only_weights)

lemma CompareFingerprints_nil: "CompareFingerprints c fp1 fp2 = (fst (CompareFingerprints c fp1 fp2), None)"
  by (simp add: CompareFingerprints_def Let_def)

text \<open>
  Claim C10.  \<^verbatim>\<open>CompareFingerprints\<close> returns a nil error for every pair of fingerprints
  and every comparator.  Hence the arms of its callers that skip a pair on an error are
  never taken: the inner loops of \<^verbatim>\<open>FindNearDuplicates\<close> and \<^verbatim>\<open>GroupBySimilarity\<close> and the
  pair loop of \<^verbatim>\<open>calculateGroupConfidence\<close> equal their error-free arms.
\<close>

theorem compare_never_fails:
  "snd (CompareFingerprints c fp1 fp2) = None
   \<and> near_inner c t fp1 (fp2 # rest) (similarImages, processed) =
       (if ID fp2 \<in> processed then near_inner c t fp1 rest (similarImages, processed)
        else if fst (CompareFingerprints c fp1 fp2) \<ge> t
          then near_inner c t fp1 rest (similarImages @ [ID fp2], insert (ID fp2) processed)
          else near_inner c t fp1 rest (similarImages, processed))
   \<and> grouper_inner c t fp1 (fp2 # rest) (dups, conf, assigned) =
       (if ID fp2 \<in> assigned then grouper_inner c t fp1 rest (dups, conf, assigned)
        else if fst (CompareFingerprints c fp1 fp2) \<ge> t
          then grouper_inner c t fp1 rest
                 (dups @ [ID fp2], fst (CompareFingerprints c fp1 fp2), insert (ID fp2) assigned)
          else grouper_inner c t fp1 rest (dups, conf, assigned))
   \<and> confidence_step c (\<lambda>i. Some (f i)) acc (a, b) =
       (fst acc + fst (CompareFingerprints c (f a) (f b)), snd acc + 1)"
proof -
  obtain s where eq: "CompareFingerprints c fp1 fp2 = (s, None)"
    using CompareFingerprints_nil by blast
  obtain s' where eq': "CompareFingerprints c (f a) (f b) = (s', None)"
    using CompareFingerprints_nil by blast
  show ?thesis
    by (simp add: eq eq' confidence_step_def)
qed

section \<open>Group confidence of the engine\<close>

lemma foldl_confidence_step:
  assumes "\<forall>p \<in> set ps. m (fst p) \<noteq> None \<and> m (snd p) \<noteq> None"
  shows "foldl (confidence_step c m) acc ps =
           (fst acc + sum_list (map (\<lambda>(a, b). fst (CompareFingerprints c (the (m a)) (the (m b)))) ps),
            snd acc + length ps)"
  using assms
proof (induction ps arbitrary: acc)
  case Nil
  then show ?case by simp
next
  case (Cons p ps)
  obtain a b where p: "p = (a, b)" by (cases p)
  from Cons.prems obtain fa fb where m: "m a = Some fa" "m b = Some fb"
    by (auto simp: p)
  obtain s where eq: "CompareFingerprints c fa fb = (s, None)"
    using CompareFingerprints_nil by blast
  have step: "confidence_step c m acc p = (fst acc + s, snd acc + 1)"
    by (simp add: confidence_step_def p m eq)
  have "foldl (confidence_step c m) acc (p # ps) =
          foldl (confidence_step c m) (fst acc + s, snd acc + 1) ps"
    by (simp add: step)
  also have "\<dots> =
      (fst acc + s + sum_list (map (\<lambda>(a, b). fst (CompareFingerprints c (the (m a)) (the (m b)))) ps),
       snd acc + 1 + length ps)"
    using Cons.prems by (subst Cons.IH) simp_all
  finally show ?case
    by (simp add: p m eq)
qed

lemma set_index_pairs: "set (index_pairs xs) \<subseteq> set xs \<times> set xs"
  by (induction xs) auto

lemma index_pairs_map: "index_pairs (map g xs) = map (\<lambda>(a, b). (g a, g b)) (index_pairs xs)"
  by (induction xs) auto

lemma length_index_pairs_pos: "2 \<le> length xs \<Longrightarrow> 0 < length (index_pairs xs)"
  by (cases xs; cases "tl xs") auto

text \<open>
  \<^verbatim>\<open>calculateGroupConfidence\<close> of the engine is the mean the spec asks for: for a group of
  at least two ids that all occur among the fingerprints, it is the mean pairwise
  similarity of the fingerprints the ids stand for.
\<close>

lemma calculateGroupConfidence_mean:
  assumes "2 \<le> length images"
      and "\<forall>i \<in> set images. build_fpMap fps i \<noteq> None"
  shows "calculateGroupConfidence c images fps =
           spec_mean_pairwise_similarity c (map (\<lambda>i. the (build_fpMap fps i)) images)"
proof -
  have dom: "\<forall>p \<in> set (index_pairs images).
      build_fpMap fps (fst p) \<noteq> None \<and> build_fpMap fps (snd p) \<noteq> None"
    using assms(2) set_index_pairs [of images] by auto
  have pos: "0 < length (index_pairs images)"
    using assms(1) by (rule length_index_pairs_pos)
  show ?thesis
    using assms(1) pos
    by (simp add: calculateGroupConfidence_def Let_def foldl_confidence_step [OF dom]
        spec_mean_pairwise_similarity_def index_pairs_map comp_def case_prod_unfold)
qed

lemma hammingDistance_1_3: "hammingDistance 1 3 = 1" "hammingDistance 3 1 = 1"
  by (simp_all add: hammingDistance_def)

lemma compare_ahash_only_equal:
  "a \<noteq> 0 \<Longrightarrow> CompareFingerprints engine_comparator (ahash_only i a) (ahash_only j a) = (1, None)"
  by (simp add: CompareFingerprints_def accumulate_def engine_comparator_weights
      compareAHash_def hammingDistance_self zero_fingerprint_def)

lemma compare_ahash_only_1_3:
  "CompareFingerprints engine_comparator (ahash_only i 1) (ahash_only j 3) = (63 / 64, None)"
  by (simp add: CompareFingerprints_def accumulate_def engine_comparator_weights
      compareAHash_def hammingDistance_1_3 zero_fingerprint_def)

text \<open>
  Claim C5 fails in \<^verbatim>\<open>Grouper.GroupBySimilarity\<close>.  For three fingerprints a, b, c with
  a_hash 1, 1 and 3 (no other hash) and threshold 0.9, the grouper emits the group
  {a, b, c} with the confidence 63/64, the similarity of a with the member added last,
  while the mean of the three pairwise similarities 1, 63/64 and 63/64 is 95/96.  On the
  same input \<^verbatim>\<open>Engine.FindNearDuplicates\<close> reports 95/96.
\<close>

theorem grouper_confidence_is_last_similarity:
  "GroupBySimilarity engine_comparator
     [ahash_only ''a'' 1, ahash_only ''b'' 1, ahash_only ''c'' 3] 0.9 =
     [\<lparr>GroupID = ''group_0'', MainImage = ''a'', DuplicateIDs = [''b'', ''c''],
       Reason = ''similarity'', Confidence = 63 / 64\<rparr>]
   \<and> spec_mean_pairwise_similarity engine_comparator
        [ahash_only ''a'' 1, ahash_only ''b'' 1, ahash_only ''c'' 3] = 95 / 96
   \<and> near_groups engine_comparator
        [ahash_only ''a'' 1, ahash_only ''b'' 1, ahash_only ''c'' 3] 0.9 =
     [\<lparr>GroupID = ''near_0'', MainImage = ''a'', DuplicateIDs = [''b'', ''c''],
       Reason = ''near'', Confidence = 95 / 96\<rparr>]"
proof (intro conjI)
  show "GroupBySimilarity engine_comparator
     [ahash_only ''a'' 1, ahash_only ''b'' 1, ahash_only ''c'' 3] 0.9 =
     [\<lparr>GroupID = ''group_0'', MainImage = ''a'', DuplicateIDs = [''b'', ''c''],
       Reason = ''similarity'', Confidence = 63 / 64\<rparr>]"
    by (simp add: GroupBySimilarity_def compare_ahash_only_equal compare_ahash_only_1_3
        decimal.simps Let_def)
next
  show "spec_mean_pairwise_similarity engine_comparator
        [ahash_only ''a'' 1, ahash_only ''b'' 1, ahash_only ''c'' 3] = 95 / 96"
    by (simp add: spec_mean_pairwise_similarity_def compare_ahash_only_equal
        compare_ahash_only_1_3)
next
  have conf: "calculateGroupConfidence engine_comparator [''a'', ''b'', ''c'']
        [ahash_only ''a'' 1, ahash_only ''b'' 1, ahash_only ''c'' 3] = 95 / 96"
    by (simp add: calculateGroupConfidence_def build_fpMap_def confidence_step_def
        compare_ahash_only_equal compare_ahash_only_1_3 Let_def)
  have best: "selectBestImage [''a'', ''b'', ''c'']
        [ahash_only ''a'' 1, ahash_only ''b'' 1, ahash_only ''c'' 3] PolicyHighestQuality = ''a''"
    by (simp add: selectBestImage_def build_fpMap_def calculateImageScore_def
        zero_fingerprint_def Let_def)
  show "near_groups engine_comparator
        [ahash_only ''a'' 1, ahash_only ''b'' 1, ahash_only ''c'' 3] 0.9 =
     [\<lparr>GroupID = ''near_0'', MainImage = ''a'', DuplicateIDs = [''b'', ''c''],
       Reason = ''near'', Confidence = 95 / 96\<rparr>]"
    by (simp add: near_groups_def compare_ahash_only_equal compare_ahash_only_1_3
        decimal.simps Let_def conf best removeElement_def)
qed



section \<open>Disjointness of duplicate groups\<close>

lemma pairwise_disjoint_snoc:
  "pairwise_disjoint (As @ [A]) \<longleftrightarrow> pairwise_disjoint As \<and> (\<forall>B \<in> set As. B \<inter> A = {})"
  by (induction As) auto

lemma pairwise_disjoint_nth:
  "pairwise_disjoint As \<longleftrightarrow> (\<forall>i < length As. \<forall>j < length As. i \<noteq> j \<longrightarrow> As ! i \<inter> As ! j = {})"
proof (induction As)
  case Nil
  then show ?case by simp
next
  case (Cons A As)
  show ?case
  proof
    assume l: "pairwise_disjoint (A # As)"
    show "\<forall>i<length (A # As). \<forall>j<length (A # As). i \<noteq> j \<longrightarrow> (A # As) ! i \<inter> (A # As) ! j = {}"
    proof (intro allI impI)
      fix i j assume "i < length (A # As)" "j < length (A # As)" "i \<noteq> j"
      then show "(A # As) ! i \<inter> (A # As) ! j = {}"
        using l Cons.IH by (cases i; cases j) (auto simp: Int_commute)
    qed
  next
    assume r: "\<forall>i<length (A # As). \<forall>j<length (A # As). i \<noteq> j \<longrightarrow> (A # As) ! i \<inter> (A # As) ! j = {}"
    have "\<forall>B \<in> set As. A \<inter> B = {}"
    proof
      fix B assume "B \<in> set As"
      then obtain k where "k < length As" "As ! k = B" by (auto simp: in_set_conv_nth)
      with r [rule_format, of 0 "Suc k"] show "A \<inter> B = {}" by simp
    qed
    moreover have "pairwise_disjoint As"
      unfolding Cons.IH
    proof (intro allI impI)
      fix i j assume "i < length As" "j < length As" "i \<noteq> j"
      with r [rule_format, of "Suc i" "Suc j"] show "As ! i \<inter> As ! j = {}" by simp
    qed
    ultimately show "pairwise_disjoint (A # As)" by simp
  qed
qed

lemma select_loop_in:
  "fst (select_loop m policy rest best) \<in> insert (fst best) (set rest)"
proof (induction rest arbitrary: best)
  case Nil
  then show ?case by simp
next
  case (Cons i rest)
  obtain b s where best: "best = (b, s)" by (cases best)
  show ?case
    using Cons.IH [of "(b, s)"] Cons.IH [of "(i, calculateImageScore (the (m i)) policy)"]
    by (auto simp: best Let_def split: option.splits)
qed

lemma selectBestImage_in:
  assumes "images \<noteq> []"
  shows "selectBestImage images fps policy \<in> set images"
proof (cases images)
  case Nil
  with assms show ?thesis by simp
next
  case (Cons first rest)
  define best where "best = (first, calculateImageScore
      (case build_fpMap fps first of None \<Rightarrow> zero_fingerprint | Some fp \<Rightarrow> fp) policy)"
  have "fst (select_loop (build_fpMap fps) policy rest best) \<in> insert (fst best) (set rest)"
    by (rule select_loop_in)
  then show ?thesis
    by (simp add: selectBestImage_def Let_def Cons best_def)
qed

lemma group_ids_selected:
  assumes "images \<noteq> []"
  shows "insert (selectBestImage images fps policy)
           (set (removeElement images (selectBestImage images fps policy))) = set images"
  using selectBestImage_in [OF assms, of fps policy] by (auto simp: removeElement_def)

lemma near_inner_inv:
  assumes "near_inner c t fp1 rest (sim, proc) = (sim', proc')"
      and "set sim \<subseteq> proc"
  shows "proc \<subseteq> proc' \<and> set sim \<subseteq> set sim' \<and> set sim' \<subseteq> proc'
         \<and> (set sim' - set sim) \<inter> proc = {}
         \<and> set sim' \<subseteq> set sim \<union> ID ` set rest
         \<and> length sim \<le> length sim'"
  using assms
proof (induction rest arbitrary: sim proc)
  case Nil
  then show ?case by auto
next
  case (Cons fp2 rest)
  obtain s where eq: "CompareFingerprints c fp1 fp2 = (s, None)"
    using CompareFingerprints_nil by blast
  show ?case
  proof (cases "ID fp2 \<notin> proc \<and> t \<le> s")
    case True
    with Cons.prems eq have run: "near_inner c t fp1 rest (sim @ [ID fp2], insert (ID fp2) proc) = (sim', proc')"
      by simp
    have sub: "set (sim @ [ID fp2]) \<subseteq> insert (ID fp2) proc"
      using Cons.prems(2) by auto
    from Cons.IH [OF run sub] True show ?thesis
      by auto
  next
    case False
    with Cons.prems eq have run: "near_inner c t fp1 rest (sim, proc) = (sim', proc')"
      by (auto split: if_splits)
    from Cons.IH [OF run Cons.prems(2)] show ?thesis
      by auto
  qed
qed

lemma near_outer_inv:
  assumes "pairwise_disjoint (map group_ids groups)"
      and "\<forall>g \<in> set groups. group_ids g \<subseteq> processed"
  shows "pairwise_disjoint (map group_ids (fst (near_outer c t fps rest (groups, processed, n))))"
  using assms
proof (induction rest arbitrary: groups processed n)
  case Nil
  then show ?case by simp
next
  case (Cons fp1 rest)
  show ?case
  proof (cases "ID fp1 \<in> processed")
    case True
    then show ?thesis using Cons by simp
  next
    case False
    obtain sim' proc' where run:
      "near_inner c t fp1 rest ([ID fp1], insert (ID fp1) processed) = (sim', proc')"
      by (cases "near_inner c t fp1 rest ([ID fp1], insert (ID fp1) processed)")
    have inv: "insert (ID fp1) processed \<subseteq> proc'" "set sim' \<subseteq> proc'"
      "(set sim' - {ID fp1}) \<inter> insert (ID fp1) processed = {}" "ID fp1 \<in> set sim'"
      using near_inner_inv [OF run] by auto
    have fresh: "set sim' \<inter> processed = {}"
      using inv(3) False by auto
    have old: "\<forall>g \<in> set groups. group_ids g \<subseteq> proc'"
      using Cons.prems(2) inv(1) by blast
    show ?thesis
    proof (cases "length sim' > 1")
      case True
      define g where "g = \<lparr>GroupID = ''near_'' @ decimal n,
          MainImage = selectBestImage sim' fps PolicyHighestQuality,
          DuplicateIDs = removeElement sim' (selectBestImage sim' fps PolicyHighestQuality),
          Reason = ''near'',
          Confidence = calculateGroupConfidence c sim' fps\<rparr>"
      have ne: "sim' \<noteq> []" using True by auto
      have ids: "group_ids g = set sim'"
        by (simp add: g_def group_ids_def group_ids_selected [OF ne])
      have d: "pairwise_disjoint (map group_ids (groups @ [g]))"
        using Cons.prems fresh by (auto simp: pairwise_disjoint_snoc ids)
      have s: "\<forall>h \<in> set (groups @ [g]). group_ids h \<subseteq> proc'"
        using old inv(2) by (auto simp: ids)
      have "near_outer c t fps (fp1 # rest) (groups, processed, n) =
              near_outer c t fps rest (groups @ [g], proc', n + 1)"
        using False True run by (simp add: g_def Let_def)
      then show ?thesis
        using Cons.IH [OF d s] by simp
    next
      case short: False
      have "near_outer c t fps (fp1 # rest) (groups, processed, n) =
              near_outer c t fps rest (groups, proc', n)"
        using False short run by simp
      then show ?thesis
        using Cons.IH [OF Cons.prems(1) old] by simp
    qed
  qed
qed

lemma near_groups_disjoint: "pairwise_disjoint (map group_ids (near_groups c fps t))"
  unfolding near_groups_def by (rule near_outer_inv) simp_all


lemma group_append_keys: "fst ` set (group_append k v m) = insert k (fst ` set m)"
proof (induction m)
  case Nil
  then show ?case by simp
next
  case (Cons e m)
  obtain k' vs where e: "e = (k', vs)" by (cases e)
  show ?case
    using Cons by (cases "k = k'") (auto simp: e)
qed

lemma group_append_distinct:
  "distinct (map fst m) \<Longrightarrow> distinct (map fst (group_append k v m))"
proof (induction m)
  case Nil
  then show ?case by simp
next
  case (Cons e m)
  obtain k' vs where e: "e = (k', vs)" by (cases e)
  show ?case
    using Cons group_append_keys [of k v m] by (auto simp: e)
qed

lemma group_append_entries:
  assumes "(k', ids) \<in> set (group_append k v m)" and "distinct (map fst m)"
  shows "(k' \<noteq> k \<and> (k', ids) \<in> set m)
       \<or> (k' = k \<and> (\<exists>old. (k, old) \<in> set m \<and> ids = old @ [v]))
       \<or> (k' = k \<and> k \<notin> fst ` set m \<and> ids = [v])"
  using assms
proof (induction m)
  case Nil
  then show ?case by auto
next
  case (Cons e m)
  obtain k0 vs where e: "e = (k0, vs)" by (cases e)
  show ?case
  proof (cases "k = k0")
    case True
    with Cons.prems show ?thesis
      by (auto simp: e image_iff)
  next
    case False
    with Cons.prems have "(k', ids) = (k0, vs) \<or> (k', ids) \<in> set (group_append k v m)"
      by (auto simp: e)
    then show ?thesis
    proof
      assume "(k', ids) = (k0, vs)"
      with False show ?thesis by (auto simp: e)
    next
      assume "(k', ids) \<in> set (group_append k v m)"
      with Cons.IH Cons.prems(2) False show ?thesis
        by (auto simp: e)
    qed
  qed
qed

lemma build_hashGroups_inv:
  "distinct (map fst (build_hashGroups fps))
   \<and> fst ` set (build_hashGroups fps) = (\<lambda>fp. SHA256 (Metadata fp)) ` set fps
   \<and> (\<forall>(k, ids) \<in> set (build_hashGroups fps). ids = sha_ids fps k)"
proof (induction fps rule: rev_induct)
  case Nil
  then show ?case by (simp add: build_hashGroups_def)
next
  case (snoc fp fps)
  define m where "m = build_hashGroups fps"
  define k where "k = SHA256 (Metadata fp)"
  have step: "build_hashGroups (fps @ [fp]) = group_append k (ID fp) m"
    by (simp add: build_hashGroups_def m_def k_def)
  have d: "distinct (map fst m)"
    and keys: "fst ` set m = (\<lambda>fp. SHA256 (Metadata fp)) ` set fps"
    and ent: "\<And>k ids. (k, ids) \<in> set m \<Longrightarrow> ids = sha_ids fps k"
    using snoc.IH by (auto simp: m_def)
  have "ids = sha_ids (fps @ [fp]) k'" if "(k', ids) \<in> set (group_append k (ID fp) m)" for k' ids
    using group_append_entries [OF that d]
  proof (elim disjE conjE exE)
    assume "k' \<noteq> k" "(k', ids) \<in> set m"
    then show ?thesis using ent [of k' ids] by (simp add: sha_ids_def k_def)
  next
    fix old assume "k' = k" "(k, old) \<in> set m" "ids = old @ [ID fp]"
    then show ?thesis using ent [of k old] by (simp add: sha_ids_def k_def)
  next
    assume "k' = k" "k \<notin> fst ` set m" "ids = [ID fp]"
    moreover have "filter (\<lambda>fp. SHA256 (Metadata fp) = k) fps = []"
      using \<open>k \<notin> fst ` set m\<close> keys by (auto simp: filter_empty_conv)
    ultimately show ?thesis by (simp add: sha_ids_def k_def)
  qed
  then show ?case
    using group_append_distinct [OF d, of k "ID fp"] group_append_keys [of k "ID fp" m] keys
    by (auto simp: step k_def)
qed

lemma sha_ids_disjoint:
  assumes "distinct (map ID fps)" and "k \<noteq> k'"
  shows "set (sha_ids fps k) \<inter> set (sha_ids fps k') = {}"
proof (rule ccontr)
  assume "set (sha_ids fps k) \<inter> set (sha_ids fps k') \<noteq> {}"
  then obtain fp fp' where "fp \<in> set fps" "fp' \<in> set fps" "ID fp = ID fp'"
    "SHA256 (Metadata fp) = k" "SHA256 (Metadata fp') = k'"
    by (auto simp: sha_ids_def)
  moreover from this assms(1) have "fp = fp'"
    by (meson distinct_map inj_onD)
  ultimately show False using assms(2) by simp
qed

lemma exact_fold_inv:
  assumes "pairwise_disjoint (map group_ids gs)"
      and "pairwise_disjoint (map (\<lambda>e. set (snd e)) entries)"
      and "\<forall>g \<in> set gs. \<forall>e \<in> set entries. group_ids g \<inter> set (snd e) = {}"
  shows "pairwise_disjoint (map group_ids (fst (foldl (exact_step fps) (gs, n) entries)))"
  using assms
proof (induction entries arbitrary: gs n)
  case Nil
  then show ?case by simp
next
  case (Cons e entries)
  show ?case
  proof (cases "length (snd e) > 1")
    case True
    define g where "g = \<lparr>GroupID = ''exact_'' @ decimal n,
        MainImage = selectBestImage (snd e) fps PolicyHighestQuality,
        DuplicateIDs = removeElement (snd e) (selectBestImage (snd e) fps PolicyHighestQuality),
        Reason = ''exact'', Confidence = 1\<rparr>"
    have ne: "snd e \<noteq> []" using True by auto
    have ids: "group_ids g = set (snd e)"
      by (simp add: g_def group_ids_def group_ids_selected [OF ne])
    have step: "exact_step fps (gs, n) e = (gs @ [g], n + 1)"
      using True by (simp add: exact_step_def Let_def g_def)
    have d: "pairwise_disjoint (map group_ids (gs @ [g]))"
      using Cons.prems(1,3) by (auto simp: pairwise_disjoint_snoc ids)
    have e2: "pairwise_disjoint (map (\<lambda>e. set (snd e)) entries)"
      using Cons.prems(2) by simp
    have x: "\<forall>h \<in> set (gs @ [g]). \<forall>e' \<in> set entries. group_ids h \<inter> set (snd e') = {}"
      using Cons.prems(2,3) by (auto simp: ids)
    show ?thesis
      using Cons.IH [OF d e2 x] by (simp add: step)
  next
    case False
    then have step: "exact_step fps (gs, n) e = (gs, n)"
      by (simp add: exact_step_def Let_def)
    show ?thesis
      using Cons.IH [of gs n] Cons.prems by (simp add: step)
  qed
qed

lemma entries_disjoint:
  assumes "distinct (map fst entries)"
      and "\<forall>(k, ids) \<in> set entries. ids = sha_ids fps k"
      and "distinct (map ID fps)"
  shows "pairwise_disjoint (map (\<lambda>e. set (snd e)) entries)"
  using assms(1,2)
proof (induction entries)
  case Nil
  then show ?case by simp
next
  case (Cons e entries)
  obtain k ids where e: "e = (k, ids)" by (cases e)
  have "set ids \<inter> set (snd e') = {}" if "e' \<in> set entries" for e'
  proof -
    obtain k' ids' where e': "e' = (k', ids')" by (cases e')
    have "k \<noteq> k'" using Cons.prems(1) that by (auto simp: e e' image_iff)
    moreover have "ids = sha_ids fps k" "ids' = sha_ids fps k'"
      using Cons.prems(2) that by (auto simp: e e')
    ultimately show ?thesis
      using sha_ids_disjoint [OF assms(3)] by (simp add: e')
  qed
  then show ?case
    using Cons by (auto simp: e)
qed

lemma exact_groups_disjoint:
  assumes "distinct (map ID fps)"
  shows "pairwise_disjoint (map group_ids (exact_groups fps))"
  unfolding exact_groups_def
proof (rule exact_fold_inv)
  show "pairwise_disjoint (map (\<lambda>e. set (snd e)) (build_hashGroups fps))"
    using build_hashGroups_inv [of fps] by (intro entries_disjoint [OF _ _ assms]) auto
qed simp_all

section \<open>Confidence of the engine's near-duplicate groups\<close>

lemma build_fpMap_dom: "dom (build_fpMap fps) = ID ` set fps"
proof -
  have "dom (foldl (\<lambda>m fp. m(ID fp \<mapsto> fp)) m0 fps) = dom m0 \<union> ID ` set fps" for m0
    by (induction fps arbitrary: m0) auto
  then show ?thesis by (simp add: build_fpMap_def)
qed

lemma build_fpMap_distinct:
  assumes "distinct (map ID fps)" and "fp \<in> set fps"
  shows "build_fpMap fps (ID fp) = Some fp"
proof -
  have "foldl (\<lambda>m fp. m(ID fp \<mapsto> fp)) m0 fps (ID fp) = Some fp"
    if "distinct (map ID fps)" "fp \<in> set fps" for m0
    using that
  proof (induction fps arbitrary: m0 rule: rev_induct)
    case Nil
    then show ?case by simp
  next
    case (snoc x xs)
    then show ?case by (cases "x = fp") (auto simp: image_iff)
  qed
  with assms show ?thesis by (simp add: build_fpMap_def)
qed

lemma near_outer_confidence:
  assumes "set rest \<subseteq> set fps"
      and "\<forall>g \<in> set groups. \<exists>members. 2 \<le> length members \<and> set members = group_ids g
             \<and> set members \<subseteq> ID ` set fps
             \<and> Confidence g = calculateGroupConfidence c members fps"
  shows "\<forall>g \<in> set (fst (near_outer c t fps rest (groups, processed, n))).
           \<exists>members. 2 \<le> length members \<and> set members = group_ids g
             \<and> set members \<subseteq> ID ` set fps
             \<and> Confidence g = calculateGroupConfidence c members fps"
  using assms
proof (induction rest arbitrary: groups processed n)
  case Nil
  then show ?case by simp
next
  case (Cons fp1 rest)
  have sub: "set rest \<subseteq> set fps" and in1: "fp1 \<in> set fps"
    using Cons.prems(1) by auto
  show ?case
  proof (cases "ID fp1 \<in> processed")
    case True
    then show ?thesis using Cons.IH [OF sub Cons.prems(2)] by simp
  next
    case False
    obtain sim' proc' where run:
      "near_inner c t fp1 rest ([ID fp1], insert (ID fp1) processed) = (sim', proc')"
      by (cases "near_inner c t fp1 rest ([ID fp1], insert (ID fp1) processed)")
    have "set sim' \<subseteq> set [ID fp1] \<union> ID ` set rest"
      using near_inner_inv [OF run] by simp
    moreover have "ID ` set rest \<subseteq> ID ` set fps"
      using sub by (rule image_mono)
    moreover have "ID fp1 \<in> ID ` set fps"
      using in1 by (rule imageI)
    ultimately have ids: "set sim' \<subseteq> ID ` set fps"
      by (simp add: subset_iff) blast
    show ?thesis
    proof (cases "length sim' > 1")
      case True
      define g where "g = \<lparr>GroupID = ''near_'' @ decimal n,
          MainImage = selectBestImage sim' fps PolicyHighestQuality,
          DuplicateIDs = removeElement sim' (selectBestImage sim' fps PolicyHighestQuality),
          Reason = ''near'',
          Confidence = calculateGroupConfidence c sim' fps\<rparr>"
      have ne: "sim' \<noteq> []" using True by auto
      have gi: "group_ids g = set sim'"
        by (simp add: g_def group_ids_def group_ids_selected [OF ne])
      have new: "\<exists>members. 2 \<le> length members \<and> set members = group_ids g
             \<and> set members \<subseteq> ID ` set fps
             \<and> Confidence g = calculateGroupConfidence c members fps"
        using True ids gi by (intro exI [of _ sim']) (simp add: g_def)
      have all: "\<forall>h \<in> set (groups @ [g]). \<exists>members. 2 \<le> length members \<and> set members = group_ids h
             \<and> set members \<subseteq> ID ` set fps
             \<and> Confidence h = calculateGroupConfidence c members fps"
        using Cons.prems(2) new by auto
      have "near_outer c t fps (fp1 # rest) (groups, processed, n) =
              near_outer c t fps rest (groups @ [g], proc', n + 1)"
        using False True run by (simp add: g_def Let_def)
      then show ?thesis
        using Cons.IH [OF sub all] by simp
    next
      case short: False
      have "near_outer c t fps (fp1 # rest) (groups, processed, n) =
              near_outer c t fps rest (groups, proc', n)"
        using False short run by simp
      then show ?thesis
        using Cons.IH [OF sub Cons.prems(2)] by simp
    qed
  qed
qed

text \<open>
  The engine's near-duplicate grouping does what claim C5 says: each group it emits has
  at least two members, and its confidence is the mean pairwise similarity of the
  fingerprints its member ids stand for.
\<close>

lemma engine_near_confidence_is_mean:
  assumes "g \<in> set (near_groups c fps t)"
  shows "\<exists>members. 2 \<le> length members \<and> set members = group_ids g
           \<and> Confidence g =
               spec_mean_pairwise_similarity c (map (\<lambda>i. the (build_fpMap fps i)) members)"
proof -
  have "\<forall>g \<in> set (near_groups c fps t). \<exists>members. 2 \<le> length members \<and> set members = group_ids g
             \<and> set members \<subseteq> ID ` set fps
             \<and> Confidence g = calculateGroupConfidence c members fps"
    unfolding near_groups_def by (rule near_outer_confidence) simp_all
  with assms obtain members where m: "2 \<le> length members" "set members = group_ids g"
      "set members \<subseteq> ID ` set fps" "Confidence g = calculateGroupConfidence c members fps"
    by blast
  have "\<forall>i \<in> set members. build_fpMap fps i \<noteq> None"
    using m(3) build_fpMap_dom [of fps] by (auto simp: dom_def)
  then have "calculateGroupConfidence c members fps =
      spec_mean_pairwise_similarity c (map (\<lambda>i. the (build_fpMap fps i)) members)"
    using m(1) by (intro calculateGroupConfidence_mean)
  with m show ?thesis by auto
qed

section \<open>Invariant of the primary bucket\<close>

lemma bucket_insert_keys: "set (map fst (bucket_insert k v b)) = insert k (set (map fst b))"
proof (induction b)
  case Nil
  then show ?case by simp
next
  case (Cons e b)
  obtain k' v' where e: "e = (k', v')" by (cases e)
  show ?case using Cons by (auto simp: e)
qed

lemma bucket_insert_entries: "set (bucket_insert k v b) \<subseteq> insert (k, v) (set b)"
proof (induction b)
  case Nil
  then show ?case by simp
next
  case (Cons e b)
  obtain k' v' where e: "e = (k', v')" by (cases e)
  show ?case using Cons by (auto simp: e)
qed

lemma bucket_insert_sorted:
  "sorted_wrt (<) (map fst b) \<Longrightarrow> sorted_wrt (<) (map fst (bucket_insert k v b))"
proof (induction b)
  case Nil
  then show ?case by simp
next
  case (Cons e b)
  obtain k' v' where e: "e = (k', v')" by (cases e)
  show ?case
  proof (cases "k = k'")
    case True
    with Cons.prems show ?thesis by (simp add: e)
  next
    case False
    show ?thesis
    proof (cases "k < k'")
      case True
      with Cons.prems False show ?thesis
        by (auto simp: e)
    next
      case ge: False
      with False have "k' < k" by auto
      moreover have "sorted_wrt (<) (map fst (bucket_insert k v b))"
        using Cons by (simp add: e)
      ultimately show ?thesis
        using Cons.prems False ge bucket_insert_keys [of k v b]
        by (auto simp: e)
    qed
  qed
qed

lemma primary_inv_insert: "primary_inv b \<Longrightarrow> primary_inv (bucket_insert (ID fp) fp b)"
  using bucket_insert_entries [of "ID fp" fp b]
  by (auto simp: primary_inv_def bucket_insert_sorted)

lemma primary_inv_delete: "primary_inv b \<Longrightarrow> primary_inv (bucket_delete b k)"
  by (auto simp: primary_inv_def bucket_delete_def sorted_wrt_filter sorted_wrt_map)

lemma SaveFingerprint_primary:
  "SaveFingerprint s fp = Inr s' \<Longrightarrow> b_fingerprints s' = bucket_insert (ID fp) fp (b_fingerprints s)"
  by (auto simp: SaveFingerprint_def bucket_put_def split: sum.splits if_splits)

lemma DeleteFingerprint_primary:
  "DeleteFingerprint s i = Inr s' \<Longrightarrow> b_fingerprints s' = bucket_delete (b_fingerprints s) i"
  by (auto simp: DeleteFingerprint_def split: sum.splits)

lemma reachable_primary_inv: "reachable s \<Longrightarrow> primary_inv (b_fingerprints s)"
proof (induction rule: reachable.induct)
  case init
  then show ?case by (simp add: NewBoltStore_def primary_inv_def)
next
  case (save s fp s')
  then show ?case by (simp add: SaveFingerprint_primary primary_inv_insert)
next
  case (delete s imageID s')
  then show ?case by (simp add: DeleteFingerprint_primary primary_inv_delete)
qed

lemma primary_inv_distinct_ids: "primary_inv b \<Longrightarrow> distinct (map ID (map snd b))"
proof -
  assume inv: "primary_inv b"
  then have eq: "map (\<lambda>e. ID (snd e)) b = map fst b"
    by (simp add: primary_inv_def)
  have d: "distinct (map fst b)"
    using inv strict_sorted_iff[of "map fst b"] by (simp add: primary_inv_def)
  have "distinct (map (\<lambda>e. ID (snd e)) b)"
    by (subst eq) (rule d)
  then show ?thesis by (simp add: comp_def)
qed

lemma reachable_distinct_ids: "reachable s \<Longrightarrow> distinct (map ID (GetAllFingerprints s))"
  unfolding GetAllFingerprints_def
  by (intro primary_inv_distinct_ids reachable_primary_inv)

section \<open>Saving into the BoltStore\<close>

lemma length_hex16: "length (hex16 h) = 16"
  by (simp add: hex16_def)

lemma updateHashIndex_total: "updateHashIndex b h i = Inr (hash_index_add b h i)"
  by (simp add: updateHashIndex_def hash_index_add_def bucket_put_def Let_def length_hex16)
     (use length_hex16 [of h] in auto)

lemma SaveFingerprint_accepted:
  assumes "ID fp \<noteq> []" and "length (ID fp) \<le> 32768"
      and "SHA256 (Metadata fp) \<noteq> []" and "length (SHA256 (Metadata fp)) \<le> 32768"
      and "Path (Metadata fp) \<noteq> []" and "length (Path (Metadata fp)) \<le> 32768"
  shows "SaveFingerprint s fp =
           Inr \<lparr>b_fingerprints = bucket_insert (ID fp) fp (b_fingerprints s),
                b_sha256_index = bucket_insert (SHA256 (Metadata fp)) (ID fp) (b_sha256_index s),
                b_path_index = bucket_insert (Path (Metadata fp)) (ID fp) (b_path_index s),
                b_ahash_index = hash_index_add (b_ahash_index s) (AHash (PHashes fp)) (ID fp),
                b_phash_index = hash_index_add (b_phash_index s) (PHash (PHashes fp)) (ID fp),
                b_dhash_index = hash_index_add (b_dhash_index s) (DHash (PHashes fp)) (ID fp),
                b_whash_index = hash_index_add (b_whash_index s) (WHash (PHashes fp)) (ID fp)\<rparr>"
  using assms by (simp add: SaveFingerprint_def bucket_put_def updateHashIndex_total)

lemma hex16_1: "hex16 1 = ''0000000000000001''"
  by (simp add: hex16_def hex_digit_def upt_rec drop_bit_eq_div)

lemma hex16_2: "hex16 2 = ''0000000000000002''"
  by (simp add: hex16_def hex_digit_def upt_rec drop_bit_eq_div)

section \<open>Groups of one query are disjoint\<close>

lemma reachable_save_each: "reachable s \<Longrightarrow> reachable (save_each s fps)"
proof (induction fps arbitrary: s)
  case Nil
  then show ?case by (simp add: save_each_def)
next
  case (Cons fp fps)
  show ?case
  proof (cases "SaveFingerprint s fp")
    case (Inl err)
    then have "save_each s (fp # fps) = save_each s fps"
      by (simp add: save_each_def)
    with Cons show ?thesis by simp
  next
    case (Inr s')
    then have "save_each s (fp # fps) = save_each s' fps"
      by (simp add: save_each_def)
    moreover have "reachable s'"
      using Cons.prems Inr by (rule reachable.save)
    ultimately show ?thesis using Cons.IH by simp
  qed
qed

lemma save_each_primary:
  assumes "\<forall>fp \<in> set fps. ID fp \<noteq> [] \<and> length (ID fp) \<le> 32768
             \<and> SHA256 (Metadata fp) \<noteq> [] \<and> length (SHA256 (Metadata fp)) \<le> 32768
             \<and> Path (Metadata fp) \<noteq> [] \<and> length (Path (Metadata fp)) \<le> 32768"
  shows "b_fingerprints (save_each s fps) =
           foldl (\<lambda>b fp. bucket_insert (ID fp) fp b) (b_fingerprints s) fps"
  using assms
proof (induction fps arbitrary: s)
  case Nil
  then show ?case by (simp add: save_each_def)
next
  case (Cons fp fps)
  obtain s' where ok: "SaveFingerprint s fp = Inr s'"
    using Cons.prems SaveFingerprint_accepted [of fp s] by auto
  have "save_each s (fp # fps) = save_each s' fps"
    by (simp add: save_each_def ok)
  moreover have "b_fingerprints s' = bucket_insert (ID fp) fp (b_fingerprints s)"
    using ok by (rule SaveFingerprint_primary)
  ultimately show ?case
    using Cons.IH [of s'] Cons.prems by simp
qed

text \<open>
  Claim C8.  In every index state that saves and deletes can reach from a fresh database,
  the groups of one call of \<^verbatim>\<open>FindExactDuplicates\<close> have pairwise disjoint id-sets (main
  image and duplicate ids together), and so have the groups of one call of
  \<^verbatim>\<open>FindNearDuplicates\<close>, whatever the threshold.
\<close>

theorem groups_pairwise_disjoint:
  assumes "reachable s"
  shows "pairwise_disjoint (map group_ids (FindExactDuplicates s))
       \<and> pairwise_disjoint (map group_ids (FindNearDuplicates s threshold))"
  using assms
  by (simp add: FindExactDuplicates_def FindNearDuplicates_def exact_groups_disjoint
      near_groups_disjoint reachable_distinct_ids)

lemma hammingDistance_1_255: "hammingDistance 1 255 = 7" "hammingDistance 255 1 = 7"
  by (simp_all add: hammingDistance_def)

lemma compare_file_fp_equal:
  "a \<noteq> 0 \<Longrightarrow> CompareFingerprints engine_comparator (file_fp i p h a) (file_fp j q k a) = (1, None)"
  by (simp add: CompareFingerprints_def accumulate_def engine_comparator_weights
      compareAHash_def hammingDistance_self)

lemma compare_file_fp_1_255:
  "CompareFingerprints engine_comparator (file_fp i p h 1) (file_fp j q k 255) = (57 / 64, None)"
  by (simp add: CompareFingerprints_def accumulate_def engine_comparator_weights
      compareAHash_def hammingDistance_1_255)

lemma four_files_all:
  "GetAllFingerprints (save_each NewBoltStore
       [file_fp ''img_b'' ''/p/b'' digest_1 1, file_fp ''img_a'' ''/p/a'' digest_1 1,
        file_fp ''img_d'' ''/p/d'' digest_2 255, file_fp ''img_c'' ''/p/c'' digest_2 255]) =
     [file_fp ''img_a'' ''/p/a'' digest_1 1, file_fp ''img_b'' ''/p/b'' digest_1 1,
      file_fp ''img_c'' ''/p/c'' digest_2 255, file_fp ''img_d'' ''/p/d'' digest_2 255]"
  unfolding GetAllFingerprints_def
  by (subst save_each_primary) (simp_all add: NewBoltStore_def)

lemma four_files_exact:
  "exact_groups
     [file_fp ''img_a'' ''/p/a'' digest_1 1, file_fp ''img_b'' ''/p/b'' digest_1 1,
      file_fp ''img_c'' ''/p/c'' digest_2 255, file_fp ''img_d'' ''/p/d'' digest_2 255] =
     [\<lparr>GroupID = ''exact_0'', MainImage = ''img_a'', DuplicateIDs = [''img_b''],
       Reason = ''exact'', Confidence = 1\<rparr>,
      \<lparr>GroupID = ''exact_1'', MainImage = ''img_c'', DuplicateIDs = [''img_d''],
       Reason = ''exact'', Confidence = 1\<rparr>]"
  by (simp add: exact_groups_def build_hashGroups_def exact_step_def selectBestImage_def
      build_fpMap_def calculateImageScore_def removeElement_def decimal.simps Let_def)

lemma four_files_near:
  "near_groups engine_comparator
     [file_fp ''img_a'' ''/p/a'' digest_1 1, file_fp ''img_b'' ''/p/b'' digest_1 1,
      file_fp ''img_c'' ''/p/c'' digest_2 255, file_fp ''img_d'' ''/p/d'' digest_2 255] (9 / 10) =
     [\<lparr>GroupID = ''near_0'', MainImage = ''img_a'', DuplicateIDs = [''img_b''],
       Reason = ''near'', Confidence = 1\<rparr>,
      \<lparr>GroupID = ''near_1'', MainImage = ''img_c'', DuplicateIDs = [''img_d''],
       Reason = ''near'', Confidence = 1\<rparr>]"
proof -
  have conf: "calculateGroupConfidence engine_comparator [i, j]
        [file_fp ''img_a'' ''/p/a'' digest_1 1, file_fp ''img_b'' ''/p/b'' digest_1 1,
         file_fp ''img_c'' ''/p/c'' digest_2 255, file_fp ''img_d'' ''/p/d'' digest_2 255] = 1"
    if "(i, j) = (''img_a'', ''img_b'') \<or> (i, j) = (''img_c'', ''img_d'')" for i j
    using that
    by (auto simp: calculateGroupConfidence_def build_fpMap_def confidence_step_def
        compare_file_fp_equal Let_def)
  have best: "selectBestImage [i, j]
        [file_fp ''img_a'' ''/p/a'' digest_1 1, file_fp ''img_b'' ''/p/b'' digest_1 1,
         file_fp ''img_c'' ''/p/c'' digest_2 255, file_fp ''img_d'' ''/p/d'' digest_2 255]
        PolicyHighestQuality = i"
    if "(i, j) = (''img_a'', ''img_b'') \<or> (i, j) = (''img_c'', ''img_d'')" for i j
    using that
    by (auto simp: selectBestImage_def build_fpMap_def calculateImageScore_def Let_def)
  show ?thesis
    by (simp add: near_groups_def compare_file_fp_equal compare_file_fp_1_255
        decimal.simps Let_def conf best removeElement_def)
qed

theorem groups_pairwise_disjoint_witness:
  "reachable (save_each NewBoltStore
       [file_fp ''img_b'' ''/p/b'' digest_1 1, file_fp ''img_a'' ''/p/a'' digest_1 1,
        file_fp ''img_d'' ''/p/d'' digest_2 255, file_fp ''img_c'' ''/p/c'' digest_2 255])
   \<and> map group_ids (FindExactDuplicates (save_each NewBoltStore
       [file_fp ''img_b'' ''/p/b'' digest_1 1, file_fp ''img_a'' ''/p/a'' digest_1 1,
        file_fp ''img_d'' ''/p/d'' digest_2 255, file_fp ''img_c'' ''/p/c'' digest_2 255])) =
       [{''img_a'', ''img_b''}, {''img_c'', ''img_d''}]
   \<and> map group_ids (FindNearDuplicates (save_each NewBoltStore
       [file_fp ''img_b'' ''/p/b'' digest_1 1, file_fp ''img_a'' ''/p/a'' digest_1 1,
        file_fp ''img_d'' ''/p/d'' digest_2 255, file_fp ''img_c'' ''/p/c'' digest_2 255]) (9 / 10)) =
       [{''img_a'', ''img_b''}, {''img_c'', ''img_d''}]
   \<and> pairwise_disjoint (map group_ids (FindExactDuplicates (save_each NewBoltStore
       [file_fp ''img_b'' ''/p/b'' digest_1 1, file_fp ''img_a'' ''/p/a'' digest_1 1,
        file_fp ''img_d'' ''/p/d'' digest_2 255, file_fp ''img_c'' ''/p/c'' digest_2 255])))
   \<and> pairwise_disjoint (map group_ids (FindNearDuplicates (save_each NewBoltStore
       [file_fp ''img_b'' ''/p/b'' digest_1 1, file_fp ''img_a'' ''/p/a'' digest_1 1,
        file_fp ''img_d'' ''/p/d'' digest_2 255, file_fp ''img_c'' ''/p/c'' digest_2 255]) (9 / 10)))"
proof -
  have r: "reachable (save_each NewBoltStore
       [file_fp ''img_b'' ''/p/b'' digest_1 1, file_fp ''img_a'' ''/p/a'' digest_1 1,
        file_fp ''img_d'' ''/p/d'' digest_2 255, file_fp ''img_c'' ''/p/c'' digest_2 255])"
    by (rule reachable_save_each) (rule reachable.init)
  show ?thesis
    using r groups_pairwise_disjoint [OF r, of "9 / 10"]
    by (simp add: FindExactDuplicates_def FindNearDuplicates_def four_files_all four_files_exact
        four_files_near group_ids_def insert_commute)
qed

section \<open>Lookup by digest and stale index entries\<close>

lemma unmarshal_ids_img: "unmarshal_ids dec (CHR ''i'' # rest) = None"
  by (simp add: unmarshal_ids_def is_json_space_def)

text \<open>
  Claim C3 fails in the stores.  Save two fingerprints with the distinct ids img_a and
  img_b and the same digest: both records are in the index, yet the SHA-256 bucket holds
  one id per digest and the second save overwrites the first, so \<^verbatim>\<open>FindBySHA256\<close> returns
  the second fingerprint alone, in the BoltStore (for any JSON decoder) and in the
  MemoryStore alike.
\<close>

theorem find_by_sha256_returns_last_saved_only:
  "SaveFingerprint NewBoltStore (file_fp ''img_a'' ''/p/a.jpg'' digest_1 1) =
     Inr \<lparr>b_fingerprints = [(''img_a'', file_fp ''img_a'' ''/p/a.jpg'' digest_1 1)],
          b_sha256_index = [(digest_1, ''img_a'')],
          b_path_index = [(''/p/a.jpg'', ''img_a'')],
          b_ahash_index = [(''0000000000000001'', [''img_a''])],
          b_phash_index = [], b_dhash_index = [], b_whash_index = []\<rparr>
   \<and> SaveFingerprint
       \<lparr>b_fingerprints = [(''img_a'', file_fp ''img_a'' ''/p/a.jpg'' digest_1 1)],
        b_sha256_index = [(digest_1, ''img_a'')],
        b_path_index = [(''/p/a.jpg'', ''img_a'')],
        b_ahash_index = [(''0000000000000001'', [''img_a''])],
        b_phash_index = [], b_dhash_index = [], b_whash_index = []\<rparr>
       (file_fp ''img_b'' ''/p/b.jpg'' digest_1 1) =
     Inr \<lparr>b_fingerprints = [(''img_a'', file_fp ''img_a'' ''/p/a.jpg'' digest_1 1),
                             (''img_b'', file_fp ''img_b'' ''/p/b.jpg'' digest_1 1)],
          b_sha256_index = [(digest_1, ''img_b'')],
          b_path_index = [(''/p/a.jpg'', ''img_a''), (''/p/b.jpg'', ''img_b'')],
          b_ahash_index = [(''0000000000000001'', [''img_a'', ''img_b''])],
          b_phash_index = [], b_dhash_index = [], b_whash_index = []\<rparr>
   \<and> FindBySHA256 dec
       \<lparr>b_fingerprints = [(''img_a'', file_fp ''img_a'' ''/p/a.jpg'' digest_1 1),
                           (''img_b'', file_fp ''img_b'' ''/p/b.jpg'' digest_1 1)],
        b_sha256_index = [(digest_1, ''img_b'')],
        b_path_index = [(''/p/a.jpg'', ''img_a''), (''/p/b.jpg'', ''img_b'')],
        b_ahash_index = [(''0000000000000001'', [''img_a'', ''img_b''])],
        b_phash_index = [], b_dhash_index = [], b_whash_index = []\<rparr>
       digest_1 = [file_fp ''img_b'' ''/p/b.jpg'' digest_1 1]
   \<and> MemoryStore_FindBySHA256
       (MemoryStore_SaveFingerprint
          (MemoryStore_SaveFingerprint NewMemoryStore (file_fp ''img_a'' ''/p/a.jpg'' digest_1 1))
          (file_fp ''img_b'' ''/p/b.jpg'' digest_1 1))
       digest_1 = [file_fp ''img_b'' ''/p/b.jpg'' digest_1 1]"
proof (intro conjI)
  show "SaveFingerprint NewBoltStore (file_fp ''img_a'' ''/p/a.jpg'' digest_1 1) =
     Inr \<lparr>b_fingerprints = [(''img_a'', file_fp ''img_a'' ''/p/a.jpg'' digest_1 1)],
          b_sha256_index = [(digest_1, ''img_a'')],
          b_path_index = [(''/p/a.jpg'', ''img_a'')],
          b_ahash_index = [(''0000000000000001'', [''img_a''])],
          b_phash_index = [], b_dhash_index = [], b_whash_index = []\<rparr>"
    by (subst SaveFingerprint_accepted)
       (simp_all add: NewBoltStore_def hash_index_add_def bucket_get_def hex16_1)
next
  show "SaveFingerprint
       \<lparr>b_fingerprints = [(''img_a'', file_fp ''img_a'' ''/p/a.jpg'' digest_1 1)],
        b_sha256_index = [(digest_1, ''img_a'')],
        b_path_index = [(''/p/a.jpg'', ''img_a'')],
        b_ahash_index = [(''0000000000000001'', [''img_a''])],
        b_phash_index = [], b_dhash_index = [], b_whash_index = []\<rparr>
       (file_fp ''img_b'' ''/p/b.jpg'' digest_1 1) =
     Inr \<lparr>b_fingerprints = [(''img_a'', file_fp ''img_a'' ''/p/a.jpg'' digest_1 1),
                             (''img_b'', file_fp ''img_b'' ''/p/b.jpg'' digest_1 1)],
          b_sha256_index = [(digest_1, ''img_b'')],
          b_path_index = [(''/p/a.jpg'', ''img_a''), (''/p/b.jpg'', ''img_b'')],
          b_ahash_index = [(''0000000000000001'', [''img_a'', ''img_b''])],
          b_phash_index = [], b_dhash_index = [], b_whash_index = []\<rparr>"
    by (subst SaveFingerprint_accepted)
       (simp_all add: hash_index_add_def bucket_get_def hex16_1)
next
  show "FindBySHA256 dec
       \<lparr>b_fingerprints = [(''img_a'', file_fp ''img_a'' ''/p/a.jpg'' digest_1 1),
                           (''img_b'', file_fp ''img_b'' ''/p/b.jpg'' digest_1 1)],
        b_sha256_index = [(digest_1, ''img_b'')],
        b_path_index = [(''/p/a.jpg'', ''img_a''), (''/p/b.jpg'', ''img_b'')],
        b_ahash_index = [(''0000000000000001'', [''img_a'', ''img_b''])],
        b_phash_index = [], b_dhash_index = [], b_whash_index = []\<rparr>
       digest_1 = [file_fp ''img_b'' ''/p/b.jpg'' digest_1 1]"
    by (simp add: FindBySHA256_def bucket_get_def unmarshal_ids_img)
next
  show "MemoryStore_FindBySHA256
       (MemoryStore_SaveFingerprint
          (MemoryStore_SaveFingerprint NewMemoryStore (file_fp ''img_a'' ''/p/a.jpg'' digest_1 1))
          (file_fp ''img_b'' ''/p/b.jpg'' digest_1 1))
       digest_1 = [file_fp ''img_b'' ''/p/b.jpg'' digest_1 1]"
    by (simp add: MemoryStore_FindBySHA256_def MemoryStore_SaveFingerprint_def NewMemoryStore_def)
qed

text \<open>
  Claim C4 fails in \<^verbatim>\<open>BoltStore.SaveFingerprint\<close>.  Save a fingerprint under the id img_1,
  then save a newer one under the same id with another path, digest and a_hash.  Both
  saves succeed and the primary record is the newer one, but the path bucket still maps
  the old path to img_1, the SHA-256 bucket still maps the old digest to img_1, and the
  a_hash bucket still lists img_1 under the old hash.
\<close>

theorem save_keeps_stale_index_entries:
  "SaveFingerprint NewBoltStore (file_fp ''img_1'' ''/photos/old.jpg'' digest_1 1) =
     Inr \<lparr>b_fingerprints = [(''img_1'', file_fp ''img_1'' ''/photos/old.jpg'' digest_1 1)],
          b_sha256_index = [(digest_1, ''img_1'')],
          b_path_index = [(''/photos/old.jpg'', ''img_1'')],
          b_ahash_index = [(''0000000000000001'', [''img_1''])],
          b_phash_index = [], b_dhash_index = [], b_whash_index = []\<rparr>
   \<and> SaveFingerprint
       \<lparr>b_fingerprints = [(''img_1'', file_fp ''img_1'' ''/photos/old.jpg'' digest_1 1)],
        b_sha256_index = [(digest_1, ''img_1'')],
        b_path_index = [(''/photos/old.jpg'', ''img_1'')],
        b_ahash_index = [(''0000000000000001'', [''img_1''])],
        b_phash_index = [], b_dhash_index = [], b_whash_index = []\<rparr>
       (file_fp ''img_1'' ''/photos/new.jpg'' digest_2 2) =
     Inr \<lparr>b_fingerprints = [(''img_1'', file_fp ''img_1'' ''/photos/new.jpg'' digest_2 2)],
          b_sha256_index = [(digest_2, ''img_1''), (digest_1, ''img_1'')],
          b_path_index = [(''/photos/new.jpg'', ''img_1''), (''/photos/old.jpg'', ''img_1'')],
          b_ahash_index = [(''0000000000000001'', [''img_1'']), (''0000000000000002'', [''img_1''])],
          b_phash_index = [], b_dhash_index = [], b_whash_index = []\<rparr>
   \<and> GetFingerprint
       \<lparr>b_fingerprints = [(''img_1'', file_fp ''img_1'' ''/photos/new.jpg'' digest_2 2)],
        b_sha256_index = [(digest_2, ''img_1''), (digest_1, ''img_1'')],
        b_path_index = [(''/photos/new.jpg'', ''img_1''), (''/photos/old.jpg'', ''img_1'')],
        b_ahash_index = [(''0000000000000001'', [''img_1'']), (''0000000000000002'', [''img_1''])],
        b_phash_index = [], b_dhash_index = [], b_whash_index = []\<rparr>
       ''img_1'' = Inr (file_fp ''img_1'' ''/photos/new.jpg'' digest_2 2)
   \<and> bucket_get [(''/photos/new.jpg'', ''img_1''), (''/photos/old.jpg'', ''img_1'')]
         ''/photos/old.jpg'' = Some ''img_1''
   \<and> bucket_get [(digest_2, ''img_1''), (digest_1, ''img_1'')] digest_1 = Some ''img_1''
   \<and> bucket_get [(''0000000000000001'', [''img_1'']), (''0000000000000002'', [''img_1''])]
         (hex16 1) = Some [''img_1'']"
proof (intro conjI)
  show "SaveFingerprint NewBoltStore (file_fp ''img_1'' ''/photos/old.jpg'' digest_1 1) =
     Inr \<lparr>b_fingerprints = [(''img_1'', file_fp ''img_1'' ''/photos/old.jpg'' digest_1 1)],
          b_sha256_index = [(digest_1, ''img_1'')],
          b_path_index = [(''/photos/old.jpg'', ''img_1'')],
          b_ahash_index = [(''0000000000000001'', [''img_1''])],
          b_phash_index = [], b_dhash_index = [], b_whash_index = []\<rparr>"
    by (subst SaveFingerprint_accepted)
       (simp_all add: NewBoltStore_def hash_index_add_def bucket_get_def hex16_1)
next
  show "SaveFingerprint
       \<lparr>b_fingerprints = [(''img_1'', file_fp ''img_1'' ''/photos/old.jpg'' digest_1 1)],
        b_sha256_index = [(digest_1, ''img_1'')],
        b_path_index = [(''/photos/old.jpg'', ''img_1'')],
        b_ahash_index = [(''0000000000000001'', [''img_1''])],
        b_phash_index = [], b_dhash_index = [], b_whash_index = []\<rparr>
       (file_fp ''img_1'' ''/photos/new.jpg'' digest_2 2) =
     Inr \<lparr>b_fingerprints = [(''img_1'', file_fp ''img_1'' ''/photos/new.jpg'' digest_2 2)],
          b_sha256_index = [(digest_2, ''img_1''), (digest_1, ''img_1'')],
          b_path_index = [(''/photos/new.jpg'', ''img_1''), (''/photos/old.jpg'', ''img_1'')],
          b_ahash_index = [(''0000000000000001'', [''img_1'']), (''0000000000000002'', [''img_1''])],
          b_phash_index = [], b_dhash_index = [], b_whash_index = []\<rparr>"
    by (subst SaveFingerprint_accepted)
       (simp_all add: hash_index_add_def bucket_get_def hex16_2)
qed (simp_all add: bucket_get_def GetFingerprint_def hex16_1)

section \<open>Quality metrics of an image of constant gray\<close>

lemma length_all_pixels: "length (all_pixels w h) = w * h"
  by (simp add: all_pixels_def length_concat comp_def sum_list_triv)

lemma length_interior: "length (interior w h) = (w - 2) * (h - 2)"
  by (simp add: interior_def length_concat comp_def sum_list_triv numeral_2_eq_2 mult.commute)

lemma sum_list_const: "sum_list (map (\<lambda>p. c) ps) = real (length ps) * c"
  by (simp add: sum_list_triv)

lemma const_gray_sel:
  "g_Dx (const_gray w h v) = w" "g_Dy (const_gray w h v) = h" "GrayAt (const_gray w h v) x y = v"
  by (simp_all add: const_gray_def)

lemma toGray_const: "toGray (const_image w h c) = const_gray w h (gray_Y (c, c, c))"
  by (simp add: toGray_def const_image_def const_gray_def)

lemma sharpness_const:
  assumes "3 \<le> w" and "3 \<le> h"
  shows "analyzeSharpness (const_gray w h v) = (0, None)"
proof -
  have lap: "laplacian (const_gray w h v) p = 0" for p
    by (simp add: laplacian_def const_gray_sel split: prod.splits)
  have tot: "sum_list (map (laplacian (const_gray w h v)) ps) = 0" for ps
    by (induction ps) (simp_all add: lap)
  show ?thesis
    using assms by (simp add: analyzeSharpness_def Let_def const_gray_sel tot)
qed

lemma noise_const:
  assumes "3 \<le> w" and "3 \<le> h"
  shows "analyzeNoise (const_gray w h v) = (0, None)"
proof -
  have at: "noise_at (const_gray w h v) p = Some 0" for p
    by (simp add: noise_at_def const_gray_sel Let_def split: prod.splits)
  have mf: "List.map_filter (noise_at (const_gray w h v)) ps = replicate (length ps) 0" for ps
    by (induction ps) (simp_all add: List.map_filter_simps at)
  have "0 < (w - 2) * (h - 2)"
    using assms by simp
  then have pos: "length (interior w h) \<noteq> 0"
    by (simp add: length_interior)
  show ?thesis
    using assms pos
    by (simp add: analyzeNoise_def Let_def const_gray_sel mf sum_list_replicate)
qed

lemma exposure_const:
  assumes "0 < w" and "0 < h" and "26 \<le> v" and "v \<le> 229"
  shows "analyzeExposure (const_gray w h v) = (real v / 255, None)"
proof -
  define l where "l = real v / 255"
  define n where "n = w * h"
  have lo: "\<not> l < 0.1" and hi: "\<not> l > 0.9"
    using assms by (simp_all add: l_def)
  have range: "0 \<le> l" "l \<le> 1"
    using lo hi by simp_all
  have lums: "map (\<lambda>(x, y). real v / 255) (all_pixels w h) = replicate n l"
    by (simp add: l_def n_def case_prod_unfold map_replicate_const length_all_pixels)
  have n: "n \<noteq> 0" using assms by (simp add: n_def)
  have f1: "filter (\<lambda>l. l < 0.1) (replicate n l) = []"
    using lo by simp
  have f2: "filter (\<lambda>l. \<not> l < 0.1 \<and> l > 0.9) (replicate n l) = []"
    using hi by simp
  have tot: "sum_list (replicate n l) = real n * l"
    by (simp add: sum_list_replicate)
  have avg: "real n * l / real n = l"
    using n by simp
  have "analyzeExposure (const_gray w h v) = (max 0 (min 1 l), None)"
    unfolding analyzeExposure_def Let_def const_gray_sel lums f1 f2 tot n_def [symmetric] avg
    using n by simp
  then show ?thesis
    using range by (simp add: l_def)
qed

lemma contrast_const:
  assumes "0 < w" and "0 < h"
  shows "analyzeContrast (const_gray w h v) = (0, None)"
proof -
  define l where "l = real v / 255"
  define n where "n = w * h"
  have vals: "map (\<lambda>(x, y). real v / 255) (all_pixels w h) = replicate n l"
    by (simp add: l_def n_def case_prod_unfold map_replicate_const length_all_pixels)
  have n: "n \<noteq> 0" using assms by (simp add: n_def)
  have sq: "map (\<lambda>v. v * v) (replicate n l) = replicate n (l * l)"
    by simp
  have tot: "sum_list (replicate n x) = real n * x" for x :: real
    by (simp add: sum_list_replicate)
  have avg: "real n * x / real n = x" for x :: real
    using n by simp
  show ?thesis
    unfolding analyzeContrast_def Let_def const_gray_sel vals sq tot n_def [symmetric] avg
    using n by simp
qed

lemma compression_large:
  assumes "100 \<le> w" and "100 \<le> h"
  shows "analyzeCompression (const_image w h c) = (3 / 10, None)"
  using assms by (simp add: analyzeCompression_def const_image_def)

lemma concat_replicate_replicate:
  "concat (replicate n (replicate m c)) = replicate (n * m) c"
  by (induction n) (simp_all add: replicate_add)

lemma colorcast_const:
  assumes "0 < w" and "0 < h" and "0 < c"
  shows "analyzeColorCast (const_image w h c) = (0, None)"
proof -
  define k where "k = length (every_4th h) * length (every_4th w)"
  define q where "q = real k * (real c / 65535) / real ((w div 4 + 1) * (h div 4 + 1))"
  have samples: "concat (map (\<lambda>y. map (\<lambda>x. RGBA_At (const_image w h c) x y) (every_4th w)) (every_4th h))
                  = replicate k (c, c, c)"
    by (simp add: const_image_def k_def map_replicate_const concat_replicate_replicate)
  have "0 < (h + 3) div 4" "0 < (w + 3) div 4"
    using assms by presburger+
  then have kpos: "0 < k"
    by (simp add: k_def every_4th_def)
  have num: "0 < real k * (real c / 65535)"
    using kpos assms by simp
  have "0 < (w div 4 + 1) * (h div 4 + 1)"
    by simp
  then have den: "0 < real ((w div 4 + 1) * (h div 4 + 1))"
    by (simp only: of_nat_0_less_iff)
  have qpos: "0 < q"
    unfolding q_def using num den by (rule divide_pos_pos)
  have s: "sum_list (map (\<lambda>(r, g, b). real r / 65535) (replicate k (c, c, c))) = real k * (real c / 65535)"
    "sum_list (map (\<lambda>(r, g, b). real g / 65535) (replicate k (c, c, c))) = real k * (real c / 65535)"
    "sum_list (map (\<lambda>(r, g, b). real b / 65535) (replicate k (c, c, c))) = real k * (real c / 65535)"
    by (simp_all add: sum_list_replicate)
  have sel: "Dx (const_image w h c) = w" "Dy (const_image w h c) = h"
    by (simp_all add: const_image_def)
  have n: "w * h \<noteq> 0" using assms by simp
  show ?thesis
    unfolding analyzeColorCast_def Let_def samples s sel q_def [symmetric]
    using qpos n by simp
qed

lemma gray_Y_128: "gray_Y (32896, 32896, 32896) = 128"
  by (simp add: gray_Y_def)

lemma gray_Y_127: "gray_Y (32639, 32639, 32639) = 127"
  by (simp add: gray_Y_def)

lemma Analyze_const:
  assumes "100 \<le> w" and "100 \<le> h" and "0 < c"
      and "26 \<le> gray_Y (c, c, c)" and "gray_Y (c, c, c) \<le> 229"
  shows "Analyze (const_image w h c) =
           \<lparr>Sharpness = 0, Noise = 0, Exposure = real (gray_Y (c, c, c)) / 255, Contrast = 0,
            Compression = 3 / 10, ColorCast = 0,
            FinalScore = calculateFinalScore
              \<lparr>Sharpness = 0, Noise = 0, Exposure = real (gray_Y (c, c, c)) / 255, Contrast = 0,
               Compression = 3 / 10, ColorCast = 0, FinalScore = 0\<rparr>\<rparr>"
proof -
  have big: "3 \<le> w" "3 \<le> h" "0 < w" "0 < h"
    using assms by simp_all
  show ?thesis
    unfolding Analyze_def Let_def toGray_const
    by (simp add: sharpness_const [OF big(1,2)] noise_const [OF big(1,2)]
        exposure_const [OF big(3,4) assms(4,5)] contrast_const [OF big(3,4)]
        compression_large [OF assms(1,2)] colorcast_const [OF big(3,4) assms(3)])
qed

text \<open>
  Claim C6, amended.  An 8-bit gray level is never exactly one half; the two nearest are 128
  and 127.  For the 800 by 600 image of constant gray 128 the analyzer yields sharpness 0,
  contrast 0, exposure 128/255, noise 0 and color cast 0, and the final score is the
  weighted composite with the centred exposure 254/255 and whatever compression value the
  analyzer reports, which keeps the score below 55.  Gray 127 gives exposure 127/255 and
  the same composite.
\<close>

theorem constant_gray_composite:
  "Sharpness (Analyze (const_image 800 600 32896)) = 0
   \<and> Contrast (Analyze (const_image 800 600 32896)) = 0
   \<and> Exposure (Analyze (const_image 800 600 32896)) = 128 / 255
   \<and> Noise (Analyze (const_image 800 600 32896)) = 0
   \<and> ColorCast (Analyze (const_image 800 600 32896)) = 0
   \<and> FinalScore (Analyze (const_image 800 600 32896)) =
       100 * (0 + 0.25 * 1 + 0.20 * (254 / 255) + 0
              + 0.05 * (1 - Compression (Analyze (const_image 800 600 32896))) + 0.05 * 1)
   \<and> FinalScore (Analyze (const_image 800 600 32896)) < 55
   \<and> Exposure (Analyze (const_image 800 600 32639)) = 127 / 255
   \<and> FinalScore (Analyze (const_image 800 600 32639)) =
       100 * (0 + 0.25 * 1 + 0.20 * (254 / 255) + 0
              + 0.05 * (1 - Compression (Analyze (const_image 800 600 32639))) + 0.05 * 1)"
  by (simp add: Analyze_const gray_Y_128 gray_Y_127 calculateFinalScore_def)

text \<open>
  Claim C6 as stated fails at the 800 by 600 image of constant gray 128: the analyzer
  reports compression 3/10 and the final score 5449/102 (about 53.42), not 0 and 55.
\<close>

theorem constant_gray_composite_not_55:
  "Compression (Analyze (const_image 800 600 32896)) = 3 / 10
   \<and> FinalScore (Analyze (const_image 800 600 32896)) = 5449 / 102
   \<and> Compression (Analyze (const_image 800 600 32896)) \<noteq> 0
   \<and> FinalScore (Analyze (const_image 800 600 32896)) \<noteq> 55"
  by (simp add: Analyze_const gray_Y_128 calculateFinalScore_def)


section \<open>Weights of the score calculator\<close>






section \<open>Perceptual hashes\<close>

text \<open>
  Claim C1 fails in \<^verbatim>\<open>Engine.computePHash\<close>, the function that fills the p_hash of every
  fingerprint.  It thresholds the 1024 luminances of the 32 by 32 image against their mean
  and sets bit \<open>i mod 64\<close> for pixel \<open>i\<close>; no DCT is applied and no coefficient is skipped.
  For the black image with one white pixel at column 31 of row 1 (pixel 63) the hash is
  \<open>2 ^ 63\<close>: bit 63, which the claim says is 0, is the only bit set.
\<close>

theorem engine_phash_sets_bit_63:
  "computePHash (one_white_pixel 32 31 1) = (push_bit 63 1, None)
   \<and> bit (fst (computePHash (one_white_pixel 32 31 1))) 63"
proof -
  have "computePHash (one_white_pixel 32 31 1) = (push_bit 63 1, None)"
    by (simp add: computePHash_def one_white_pixel_def all_pixels_def upt_rec Let_def)
  then show ?thesis
    by (simp add: bit_simps)
qed

theorem engine_phash_sets_bit_63_witness:
  "\<not> (Dx (one_white_pixel 32 31 1) \<noteq> 32 \<or> Dy (one_white_pixel 32 31 1) \<noteq> 32)
   \<and> snd (computePHash (one_white_pixel 32 31 1)) = None
   \<and> fst (computePHash (one_white_pixel 32 31 1)) = push_bit 63 1"
  using engine_phash_sets_bit_63 by (simp add: one_white_pixel_def)

text \<open>
  Claim C2 fails in \<^verbatim>\<open>Engine.computeWHash\<close>, which returns the average hash: no wavelet
  transform is applied, all 64 pixels of the 8 by 8 image give a bit and none is skipped.
  For the black image with one white pixel in the last column of the last row the hash is
  \<open>2 ^ 63\<close>, where a hash packed as for p_hash has bit 63 clear.
\<close>

theorem engine_whash_is_average_hash:
  "computeWHash gray = computeAHash gray
   \<and> computeWHash (one_white_pixel 8 7 7) = (push_bit 63 1, None)
   \<and> bit (fst (computeWHash (one_white_pixel 8 7 7))) 63"
proof -
  have "computeWHash (one_white_pixel 8 7 7) = (push_bit 63 1, None)"
    by (simp add: computeWHash_def computeAHash_def one_white_pixel_def all_pixels_def
        upt_rec Let_def)
  then show ?thesis
    by (simp add: bit_simps computeWHash_def)
qed

lemma pack_row_bound:
  "snd (pack_row dct mean y xs (hash, bitPos))
     \<le> bitPos + length (filter (\<lambda>x. \<not> (x = 0 \<and> y = 0)) xs)"
proof (induction xs arbitrary: hash bitPos)
  case Nil
  then show ?case by simp
next
  case (Cons x xs)
  show ?case
  proof (cases "x = 0 \<and> y = 0")
    case True
    then show ?thesis using Cons.IH [of hash bitPos] by simp
  next
    case False
    define hash' where "hash' = (if dct y x > mean then hash OR push_bit bitPos 1 else hash)"
    show ?thesis
      using False Cons.IH [of hash' "bitPos + 1"]
      by (auto simp: Let_def hash'_def)
  qed
qed

lemma pack_row_high_bits:
  assumes "\<forall>n \<ge> bitPos. \<not> bit hash n"
  shows "\<forall>n \<ge> snd (pack_row dct mean y xs (hash, bitPos)).
           \<not> bit (fst (pack_row dct mean y xs (hash, bitPos))) n"
  using assms
proof (induction xs arbitrary: hash bitPos)
  case Nil
  then show ?case by simp
next
  case (Cons x xs)
  show ?case
  proof (cases "x = 0 \<and> y = 0")
    case True
    then show ?thesis using Cons.IH [OF Cons.prems] by simp
  next
    case False
    define hash' where "hash' = (if dct y x > mean then hash OR push_bit bitPos 1 else hash)"
    have inv: "\<forall>n \<ge> bitPos + 1. \<not> bit hash' n"
      using Cons.prems by (auto simp: hash'_def bit_simps)
    show ?thesis
      using False Cons.IH [OF inv] inv
      by (auto simp: Let_def hash'_def)
  qed
qed

lemma pack_rows_bound:
  "snd (pack_rows dct mean m ys st)
     \<le> snd st + sum_list (map (\<lambda>y. length (filter (\<lambda>x. \<not> (x = 0 \<and> y = 0)) [0..<m])) ys)"
proof (induction ys arbitrary: st)
  case Nil
  then show ?case by simp
next
  case (Cons y ys)
  obtain hash bitPos where st: "st = (hash, bitPos)" by (cases st)
  define st' where "st' = pack_row dct mean y [0..<m] (hash, bitPos)"
  have b: "snd st' \<le> bitPos + length (filter (\<lambda>x. \<not> (x = 0 \<and> y = 0)) [0..<m])"
    unfolding st'_def by (rule pack_row_bound)
  show ?case
    using b Cons.IH [of st']
    by (auto simp: st Let_def st'_def [symmetric])
qed

lemma pack_rows_high_bits:
  assumes "\<forall>n \<ge> snd st. \<not> bit (fst st) n"
  shows "\<forall>n \<ge> snd (pack_rows dct mean m ys st). \<not> bit (fst (pack_rows dct mean m ys st)) n"
  using assms
proof (induction ys arbitrary: st)
  case Nil
  then show ?case by simp
next
  case (Cons y ys)
  obtain hash bitPos where st: "st = (hash, bitPos)" by (cases st)
  define st' where "st' = pack_row dct mean y [0..<m] (hash, bitPos)"
  have inv: "\<forall>n \<ge> snd st'. \<not> bit (fst st') n"
    unfolding st'_def using Cons.prems by (intro pack_row_high_bits) (simp add: st)
  show ?case
    using inv Cons.IH [OF inv]
    by (auto simp: st Let_def st'_def [symmetric])
qed

text \<open>
  The perception hash of package perceptual does what the claim says of the packing: with
  the 8 by 8 block, 63 coefficients are packed into bits 0 to 62 and bit 63 stays 0.
\<close>

lemma PHash_Compute_bit_63_clear:
  assumes "SmallSize p = 8"
  shows "\<not> bit (fst (PHash_Compute p resized)) 63"
proof -
  define r where "r = pack_rows (applyDCT resized)
      (sum_list (map (\<lambda>(x, y). applyDCT resized y x)
         (filter (\<lambda>(x, y). \<not> (x = 0 \<and> y = 0)) (all_pixels 8 8)))
       / real (length (filter (\<lambda>(x, y). \<not> (x = 0 \<and> y = 0)) (all_pixels 8 8))))
      8 [0..<8] (0, 0)"
  have "snd r \<le> 0 + sum_list (map (\<lambda>y. length (filter (\<lambda>x. \<not> (x = 0 \<and> y = 0)) [0..<8])) [0..<8])"
    unfolding r_def using pack_rows_bound [of _ _ 8 "[0..<8]" "(0, 0)"] by simp
  also have "\<dots> = 63"
    by (simp add: upt_rec)
  finally have b: "snd r \<le> 63" .
  have "\<forall>n \<ge> snd r. \<not> bit (fst r) n"
    unfolding r_def by (rule pack_rows_high_bits) simp
  with b have "\<not> bit (fst r) 63" by blast
  then show ?thesis
    by (auto simp: PHash_Compute_def Let_def assms r_def)
qed

end
